theory Spec2Isabelle
  imports Main
begin

section \<open>JavaScript strings\<close>

text \<open>
  A JavaScript string is a sequence of UTF-16 code units. The model writes it as a
  \<^typ>\<open>string\<close>; every \<^typ>\<open>char\<close> stands for one code unit below 256. The white space
  that \<^verbatim>\<open>String.prototype.trim\<close> removes is, in that range, the code units
  9 to 13, 32 and 160.
\<close>

definition is_ws :: "char \<Rightarrow> bool" where
  "is_ws c = (c = CHR 0x09 \<or> c = CHR 0x0A \<or> c = CHR 0x0B \<or> c = CHR 0x0C \<or> c = CHR 0x0D
               \<or> c = CHR 0x20 \<or> c = CHR 0xA0)"

definition trim :: "string \<Rightarrow> string" where
  "trim s = rev (dropWhile is_ws (rev (dropWhile is_ws s)))"

text \<open>\<^verbatim>\<open>s.split('\n')\<close>: never empty, the empty string gives one empty line.\<close>

fun split_nl :: "string \<Rightarrow> string list" where
  "split_nl [] = [[]]"
| "split_nl (c # cs) =
     (if c = CHR 0x0A then [] # split_nl cs
      else (case split_nl cs of [] \<Rightarrow> [[c]] | l # ls \<Rightarrow> (c # l) # ls))"

definition startsWith :: "string \<Rightarrow> string \<Rightarrow> bool" where
  "startsWith s p = (take (length p) s = p)"

definition endsWith :: "string \<Rightarrow> string \<Rightarrow> bool" where
  "endsWith s p = (length p \<le> length s \<and> drop (length s - length p) s = p)"

text \<open>\<^verbatim>\<open>s.indexOf(c)\<close> for a single character: \<open>None\<close> stands for the result -1.\<close>

definition indexOf :: "string \<Rightarrow> char \<Rightarrow> nat option" where
  "indexOf s c = (if c \<in> set s then Some (length (takeWhile (\<lambda>x. x \<noteq> c) s)) else None)"

text \<open>\<^verbatim>\<open>s.includes(p)\<close>.\<close>

fun str_includes :: "string \<Rightarrow> string \<Rightarrow> bool" where
  "str_includes [] p = (p = [])"
| "str_includes (c # cs) p = (take (length p) (c # cs) = p \<or> str_includes cs p)"

text \<open>
  \<^verbatim>\<open>s.replace(p, r)\<close> with a string pattern: only the first occurrence is replaced.
  (The replacement strings used here hold no \<^verbatim>\<open>$\<close>.)
\<close>

fun replace_first :: "string \<Rightarrow> string \<Rightarrow> string \<Rightarrow> string" where
  "replace_first [] p r = (if p = [] then r else [])"
| "replace_first (c # cs) p r =
     (if take (length p) (c # cs) = p then r @ drop (length p) (c # cs)
      else c # replace_first cs p r)"

text \<open>\<^verbatim>\<open>s.replace(/p/g, r)\<close> for a literal, non-empty pattern: every occurrence, left to right.\<close>

fun replace_all :: "string \<Rightarrow> string \<Rightarrow> string \<Rightarrow> string" where
  "replace_all [] p r = []"
| "replace_all (c # cs) p r =
     (if p \<noteq> [] \<and> take (length p) (c # cs) = p
      then r @ replace_all (drop (length p - 1) cs) p r
      else c # replace_all cs p r)"

text \<open>The number of places at which \<open>p\<close> occurs in \<open>s\<close>.\<close>

fun occurrences :: "string \<Rightarrow> string \<Rightarrow> nat" where
  "occurrences [] p = (if p = [] then 1 else 0)"
| "occurrences (c # cs) p =
     (if take (length p) (c # cs) = p then 1 else 0) + occurrences cs p"

text \<open>A number in a template literal: its decimal digits.\<close>

fun string_of_nat :: "nat \<Rightarrow> string" where
  "string_of_nat n =
     (if n < 10 then [''0123456789'' ! n]
      else string_of_nat (n div 10) @ [''0123456789'' ! (n mod 10)])"

declare string_of_nat.simps [simp del]

section \<open>environmentParser.ts\<close>

record EnvironmentConfig =
  displayName :: string
  configFileName :: string
  position :: nat

record EnvironmentCollection =
  environments :: "EnvironmentConfig list"
  totalCount :: nat

record ValidationResult =
  isValid :: bool
  errors :: "string list"
  warnings :: "string list"

definition DEFAULT_ENVIRONMENTS_CONTENT :: string where
  "DEFAULT_ENVIRONMENTS_CONTENT =
     ''# MCP Environment Configuration'' @ [CHR 0x0A] @
     ''# Format: DisplayName:ConfigBaseName (extension .json is added automatically)'' @ [CHR 0x0A] @
     ''# First environment = safest (green), last = most dangerous (red)'' @ [CHR 0x0A] @
     ''Local:mcp-local'' @ [CHR 0x0A] @
     ''Dev:mcp-dev'' @ [CHR 0x0A] @
     ''Prod:mcp-prod''"

text \<open>
  The lines both the parser and the text validator work on: split at newlines, trimmed,
  without the empty ones and the comments.
\<close>

definition candidate_lines :: "string \<Rightarrow> string list" where
  "candidate_lines content =
     filter (\<lambda>line. line \<noteq> [] \<and> \<not> startsWith line ''#'') (map trim (split_nl content))"

text \<open>
  Both the parser and the text validator cut a line at its first colon and trim the two
  halves (\<open>None\<close>: no colon), and both add \<^verbatim>\<open>.json\<close> to a base name that does not
  end with it.
\<close>

definition line_halves :: "string \<Rightarrow> (string \<times> string) option" where
  "line_halves line =
     (case indexOf line CHR '':'' of
        None \<Rightarrow> None
      | Some colonIndex \<Rightarrow> Some (trim (take colonIndex line), trim (drop (colonIndex + 1) line)))"

definition with_json :: "string \<Rightarrow> string" where
  "with_json base = (if endsWith base ''.json'' then base else base @ ''.json'')"

text \<open>
  The body of the parser's \<^verbatim>\<open>forEach\<close> callback, for the line at \<open>index\<close> of the
  candidate lines: \<open>None\<close> when it pushes nothing.
\<close>

definition parse_line :: "nat \<Rightarrow> string \<Rightarrow> EnvironmentConfig option" where
  "parse_line index line =
     (case line_halves line of
        None \<Rightarrow> None
      | Some (dn, baseConfigFileName) \<Rightarrow>
          (let cfn = with_json baseConfigFileName
           in if dn \<noteq> [] \<and> baseConfigFileName \<noteq> []
              then Some \<lparr>displayName = dn, configFileName = cfn, position = index\<rparr>
              else None))"

fun parse_lines :: "nat \<Rightarrow> string list \<Rightarrow> EnvironmentConfig list" where
  "parse_lines index [] = []"
| "parse_lines index (line # rest) =
     (case parse_line index line of
        None \<Rightarrow> parse_lines (index + 1) rest
      | Some env \<Rightarrow> env # parse_lines (index + 1) rest)"

definition parseEnvironmentProps :: "string \<Rightarrow> EnvironmentCollection" where
  "parseEnvironmentProps propsContent =
     (let envs = parse_lines 0 (candidate_lines propsContent)
      in \<lparr>environments = envs, totalCount = length envs\<rparr>)"


subsection \<open>The text validator\<close>

definition quoted :: "string \<Rightarrow> string" where
  "quoted s = [CHR 0x27] @ s @ [CHR 0x27]"

text \<open>The test \<^verbatim>\<open>/^[a-zA-Z0-9._-]+\.json$/\<close>.\<close>

definition is_name_char :: "char \<Rightarrow> bool" where
  "is_name_char c =
     (c \<in> set ''abcdefghijklmnopqrstuvwxyzABCDEFGHIJKLMNOPQRSTUVWXYZ0123456789._-'')"

definition usual_file_name :: "string \<Rightarrow> bool" where
  "usual_file_name f =
     (endsWith f ''.json'' \<and> 5 < length f \<and> list_all is_name_char (take (length f - 5) f))"

text \<open>What the validators' loops update: the two result lists and the two sets of seen names.\<close>

record vstate =
  v_errors :: "string list"
  v_warnings :: "string list"
  v_displayNames :: "string set"
  v_configFiles :: "string set"

definition push_error :: "string \<Rightarrow> vstate \<Rightarrow> vstate" where
  "push_error msg st = st\<lparr>v_errors := v_errors st @ [msg]\<rparr>"

definition push_warning :: "string \<Rightarrow> vstate \<Rightarrow> vstate" where
  "push_warning msg st = st\<lparr>v_warnings := v_warnings st @ [msg]\<rparr>"

definition line_prefix :: "nat \<Rightarrow> string" where
  "line_prefix lineNumber = ''Line '' @ string_of_nat lineNumber @ '': ''"

definition check_display_name :: "nat \<Rightarrow> string \<Rightarrow> vstate \<Rightarrow> vstate" where
  "check_display_name lineNumber dn st =
     (if dn = [] then push_error (line_prefix lineNumber @ ''Empty display name'') st
      else if dn \<in> v_displayNames st
      then push_error (line_prefix lineNumber @ ''Duplicate display name '' @ quoted dn) st
      else st\<lparr>v_displayNames := insert dn (v_displayNames st)\<rparr>)"

definition check_config_file :: "nat \<Rightarrow> string \<Rightarrow> string \<Rightarrow> vstate \<Rightarrow> vstate" where
  "check_config_file lineNumber baseConfigFile configFile st =
     (if baseConfigFile = [] then push_error (line_prefix lineNumber @ ''Empty config file name'') st
      else if configFile \<in> v_configFiles st
      then push_error (line_prefix lineNumber @ ''Duplicate config file '' @ quoted configFile) st
      else st\<lparr>v_configFiles := insert configFile (v_configFiles st)\<rparr>)"

definition check_extras :: "nat \<Rightarrow> string \<Rightarrow> string \<Rightarrow> vstate \<Rightarrow> vstate" where
  "check_extras lineNumber dn configFile st =
     (let st1 = (if dn \<noteq> [] \<and> 50 < length dn
                 then push_warning (line_prefix lineNumber @ ''Display name '' @ quoted dn @
                        '' is quite long ('' @ string_of_nat (length dn) @ '' characters)'') st
                 else st)
      in if configFile \<noteq> [] \<and> \<not> usual_file_name configFile
         then push_warning (line_prefix lineNumber @ ''Config file '' @ quoted configFile @
                '' contains unusual characters'') st1
         else st1)"

text \<open>The callback of the text validator's \<^verbatim>\<open>forEach\<close>.\<close>

definition validate_line :: "nat \<Rightarrow> string \<Rightarrow> vstate \<Rightarrow> vstate" where
  "validate_line index line st =
     (let lineNumber = index + 1 in
      case line_halves line of
        None \<Rightarrow> push_error (line_prefix lineNumber @ ''Invalid format, expected '' @
                  quoted ''DisplayName:ConfigFile'') st
      | Some (dn, baseConfigFile) \<Rightarrow>
          (let configFile = with_json baseConfigFile
           in check_extras lineNumber dn configFile
                (check_config_file lineNumber baseConfigFile configFile
                   (check_display_name lineNumber dn st))))"

fun validate_lines :: "nat \<Rightarrow> string list \<Rightarrow> vstate \<Rightarrow> vstate" where
  "validate_lines index [] st = st"
| "validate_lines index (line # rest) st =
     validate_lines (index + 1) rest (validate_line index line st)"

definition empty_vstate :: vstate where
  "empty_vstate = \<lparr>v_errors = [], v_warnings = [], v_displayNames = {}, v_configFiles = {}\<rparr>"

definition result_of :: "vstate \<Rightarrow> ValidationResult" where
  "result_of st = \<lparr>isValid = (length (v_errors st) = 0), errors = v_errors st,
                    warnings = v_warnings st\<rparr>"

definition validateEnvironmentProps :: "string \<Rightarrow> ValidationResult" where
  "validateEnvironmentProps content =
     (let lines = candidate_lines content in
      if length lines = 0
      then \<lparr>isValid = False, errors = [''No environments defined''], warnings = []\<rparr>
      else result_of (validate_lines 0 lines empty_vstate))"


section \<open>The host: file system, workspace state, timers\<close>

text \<open>
  Everything the extension reads or changes outside its own values is a field of one
  record. Files hold their decoded text. Which operations the operating system refuses
  is given by two sets of paths: a read of a path in \<open>unreadable\<close> raises, and so does a
  write or a directory creation at a path in \<open>readonly\<close>. An operation that raises
  changes nothing. Console output is not modelled. One call is followed to its end; no
  other event of the host runs in between.
\<close>

record StatusBarItem =
  sb_text :: string
  sb_color :: string
  sb_tooltip :: string

record world =
  home :: string
  files :: "string \<rightharpoonup> string"
  dirs :: "string set"
  unreadable :: "string set"
  readonly :: "string set"
  mcpCurrentEnv :: "string option"
  workspaceFolders :: "string list"
  foldersRefused :: bool
  statusBarItem :: "StatusBarItem option"
  messages :: "string list"
  credentialsSenderInterval :: "nat option"
  liveIntervals :: "nat list"
  nextIntervalId :: nat
  uuids :: "nat \<Rightarrow> string"
  uuidsDrawn :: nat
  urlParses :: "string \<Rightarrow> bool"
  sendCredentialsCalls :: nat
  posts :: "(string \<times> string) list"

datatype error = Error string | IOError | TypeError

text \<open>
  The promise of an \<^verbatim>\<open>async\<close> function, followed to its end: it settles, fulfilled
  or rejected, or it stays pending for ever.
\<close>

datatype 'a promise = Settled 'a | Pending

text \<open>
  \<^verbatim>\<open>path.join\<close> of two segments and \<^verbatim>\<open>path.dirname\<close>, on paths that need no
  normalisation (no empty, \<^verbatim>\<open>.\<close> or \<^verbatim>\<open>..\<close> segment).
\<close>

definition path_join :: "string \<Rightarrow> string \<Rightarrow> string" where
  "path_join a b = a @ ''/'' @ b"

definition path_dirname :: "string \<Rightarrow> string" where
  "path_dirname p =
     (if CHR ''/'' \<in> set p
      then (let d = rev (tl (dropWhile (\<lambda>c. c \<noteq> CHR ''/'') (rev p)))
            in if d = [] then ''/'' else d)
      else ''.'')"

definition existsSync :: "world \<Rightarrow> string \<Rightarrow> bool" where
  "existsSync w p = (p \<in> dirs w \<or> files w p \<noteq> None)"

definition readFileSync :: "world \<Rightarrow> string \<Rightarrow> error + string" where
  "readFileSync w p =
     (case files w p of
        None \<Rightarrow> Inl IOError
      | Some content \<Rightarrow> if p \<in> unreadable w then Inl IOError else Inr content)"

definition writeFileSync :: "world \<Rightarrow> string \<Rightarrow> string \<Rightarrow> error + world" where
  "writeFileSync w p content =
     (if p \<in> readonly w \<or> p \<in> dirs w then Inl IOError
      else Inr (w\<lparr>files := (files w)(p \<mapsto> content)\<rparr>))"

definition mkdirSync :: "world \<Rightarrow> string \<Rightarrow> error + world" where
  "mkdirSync w p =
     (if p \<in> readonly w \<or> files w p \<noteq> None then Inl IOError
      else Inr (w\<lparr>dirs := insert p (dirs w)\<rparr>))"

definition copyFileSync :: "world \<Rightarrow> string \<Rightarrow> string \<Rightarrow> error + world" where
  "copyFileSync w src dst =
     (case readFileSync w src of
        Inl e \<Rightarrow> Inl e
      | Inr content \<Rightarrow> writeFileSync w dst content)"

text \<open>\<^verbatim>\<open>if (!fs.existsSync(dir)) { fs.mkdirSync(dir, { recursive: true }); }\<close>\<close>

definition ensure_dir :: "world \<Rightarrow> string \<Rightarrow> error + world" where
  "ensure_dir w dir = (if existsSync w dir then Inr w else mkdirSync w dir)"

text \<open>\<^verbatim>\<open>context.workspaceState.get('mcpCurrentEnv') || dflt\<close>, when \<open>dflt\<close> is a value.\<close>

definition stored_or :: "world \<Rightarrow> string \<Rightarrow> string" where
  "stored_or w dflt =
     (case mcpCurrentEnv w of None \<Rightarrow> dflt | Some s \<Rightarrow> if s = [] then dflt else s)"

section \<open>environmentParser.ts: the loader and the descriptor validator\<close>

definition getEnvironmentPropsPath :: "world \<Rightarrow> string" where
  "getEnvironmentPropsPath w =
     path_join (path_join (path_join (home w) ''.cursor'') ''mcp-selector'')
       ''mcp-environments.props''"

definition createDefaultEnvironmentProps :: "world \<Rightarrow> world \<times> (error + unit)" where
  "createDefaultEnvironmentProps w =
     (let propsPath = getEnvironmentPropsPath w;
          dir = path_dirname propsPath
      in case ensure_dir w dir of
           Inl e \<Rightarrow> (w, Inl e)
         | Inr w1 \<Rightarrow>
             (case writeFileSync w1 propsPath DEFAULT_ENVIRONMENTS_CONTENT of
                Inl e \<Rightarrow> (w1, Inl e)
              | Inr w2 \<Rightarrow> (w2, Inr ())))"

text \<open>
  The loader. The \<^verbatim>\<open>try\<close> block is the chain of cases; each \<open>Inl\<close> is the
  \<^verbatim>\<open>catch\<close> branch, which parses the default text. The result of the text validator
  is only used to log its warnings.
\<close>

definition loadEnvironmentConfiguration :: "world \<Rightarrow> world \<times> EnvironmentCollection" where
  "loadEnvironmentConfiguration w =
     (let propsPath = getEnvironmentPropsPath w in
      case (if existsSync w propsPath then (w, Inr ()) else createDefaultEnvironmentProps w) of
        (w1, Inl e) \<Rightarrow> (w1, parseEnvironmentProps DEFAULT_ENVIRONMENTS_CONTENT)
      | (w1, Inr u) \<Rightarrow>
          (case readFileSync w1 propsPath of
             Inl e \<Rightarrow> (w1, parseEnvironmentProps DEFAULT_ENVIRONMENTS_CONTENT)
           | Inr content \<Rightarrow>
               (let validation = validateEnvironmentProps content
                in (w1, parseEnvironmentProps content))))"

definition envs_dir :: "world \<Rightarrow> string" where
  "envs_dir w = path_join (path_join (path_join (home w) ''.cursor'') ''mcp-selector'') ''envs''"





section \<open>configManager.ts\<close>

text \<open>
  \<^verbatim>\<open>addCursorRulesToWorkspace\<close>: the whole body is inside a \<^verbatim>\<open>try\<close>, so a failing
  directory creation leaves the world as it was. \<open>foldersRefused\<close> stands for the editor
  answering \<^verbatim>\<open>false\<close> to \<^verbatim>\<open>updateWorkspaceFolders\<close>.
\<close>

definition addCursorRulesToWorkspace :: "world \<Rightarrow> world" where
  "addCursorRulesToWorkspace w =
     (let cursorRulesPath = path_join (path_join (home w) ''.cursor'') ''rules'' in
      case ensure_dir w cursorRulesPath of
        Inl e \<Rightarrow> w
      | Inr w1 \<Rightarrow>
          if cursorRulesPath \<in> set (workspaceFolders w1) then w1
          else if foldersRefused w1 then w1
          else w1\<lparr>workspaceFolders := workspaceFolders w1 @ [cursorRulesPath]\<rparr>)"

text \<open>\<open>None\<close> is \<^verbatim>\<open>undefined\<close>.\<close>

definition getConfigFileBase :: "world \<Rightarrow> string \<Rightarrow> world \<times> string option" where
  "getConfigFileBase w dn =
     (let (w1, envConfig) = loadEnvironmentConfiguration w in
      case find (\<lambda>e. displayName e = dn) (environments envConfig) of
        None \<Rightarrow> (w1, None)
      | Some env \<Rightarrow> (w1, Some (replace_first (configFileName env) ''.json'' [])))"

definition getAllEnvironments :: "world \<Rightarrow> world \<times> string list" where
  "getAllEnvironments w =
     (let (w1, envConfig) = loadEnvironmentConfiguration w
      in (w1, map displayName (environments envConfig)))"

text \<open>\<^verbatim>\<open>if (!fileBase)\<close> holds for \<^verbatim>\<open>undefined\<close> and for the empty string.\<close>

definition getConfigFilePath :: "world \<Rightarrow> string \<Rightarrow> world \<times> (error + string)" where
  "getConfigFilePath w dn =
     (let mcpDir = envs_dir w;
          (w1, fileBase) = getConfigFileBase w dn
      in case fileBase of
           None \<Rightarrow> (w1, Inl (Error (''Unknown environment: '' @ dn)))
         | Some fb \<Rightarrow>
             if fb = [] then (w1, Inl (Error (''Unknown environment: '' @ dn)))
             else (w1, Inr (path_join mcpDir (fb @ ''.json''))))"

definition getIdpUrlFilePath :: "world \<Rightarrow> string \<Rightarrow> world \<times> (error + string)" where
  "getIdpUrlFilePath w dn =
     (let mcpDir = envs_dir w;
          (w1, fileBase) = getConfigFileBase w dn
      in case fileBase of
           None \<Rightarrow> (w1, Inl (Error (''Unknown environment: '' @ dn)))
         | Some fb \<Rightarrow>
             if fb = [] then (w1, Inl (Error (''Unknown environment: '' @ dn)))
             else (w1, Inr (path_join mcpDir (fb @ ''-idp-url.txt''))))"

definition getCursorMcpPath :: "world \<Rightarrow> string" where
  "getCursorMcpPath w = path_join (path_join (home w) ''.cursor'') ''mcp.json''"

definition getCursorIdpUrlPath :: "world \<Rightarrow> string" where
  "getCursorIdpUrlPath w =
     path_join (path_join (path_join (home w) ''.cursor'') ''mcp-selector'') ''mcp-idp-url.txt''"

definition getCurrentEnvironment :: "world \<Rightarrow> world \<times> string" where
  "getCurrentEnvironment w =
     (let (w1, envConfig) = loadEnvironmentConfiguration w;
          defaultEnv = (case environments envConfig of [] \<Rightarrow> ''Local'' | e # es \<Rightarrow> displayName e)
      in (w1, stored_or w1 defaultEnv))"

text \<open>\<^verbatim>\<open>crypto.randomUUID()\<close>: the next value of a sequence the world supplies.\<close>

definition generateUUID :: "world \<Rightarrow> world \<times> string" where
  "generateUUID w = (w\<lparr>uuidsDrawn := uuidsDrawn w + 1\<rparr>, uuids w (uuidsDrawn w))"

record TokenResult =
  success :: bool
  uuid :: "string option"

definition replaceTokenTemplateFromSource :: "world \<Rightarrow> world \<times> TokenResult" where
  "replaceTokenTemplateFromSource w =
     (let (w1, currentEnv) = getCurrentEnvironment w in
      case getConfigFilePath w1 currentEnv of
        (w2, Inl e) \<Rightarrow> (w2, \<lparr>success = False, uuid = None\<rparr>)
      | (w2, Inr sourceFilePath) \<Rightarrow>
          (let targetFilePath = getCursorMcpPath w2 in
           if \<not> existsSync w2 sourceFilePath then (w2, \<lparr>success = False, uuid = None\<rparr>)
           else
             case readFileSync w2 sourceFilePath of
               Inl e \<Rightarrow> (w2, \<lparr>success = False, uuid = None\<rparr>)
             | Inr sourceContent \<Rightarrow>
                 if \<not> str_includes sourceContent ''access_token_template''
                 then (w2, \<lparr>success = True, uuid = None\<rparr>)
                 else
                   (let (w3, newUuid) = generateUUID w2;
                        updatedContent = replace_all sourceContent ''access_token_template'' newUuid
                    in case ensure_dir w3 (path_dirname targetFilePath) of
                         Inl e \<Rightarrow> (w3, \<lparr>success = False, uuid = None\<rparr>)
                       | Inr w4 \<Rightarrow>
                           (case writeFileSync w4 targetFilePath updatedContent of
                              Inl e \<Rightarrow> (w4, \<lparr>success = False, uuid = None\<rparr>)
                            | Inr w5 \<Rightarrow> (w5, \<lparr>success = True, uuid = Some newUuid\<rparr>)))))"

text \<open>
  The \<^verbatim>\<open>try\<close> block that ends both copy functions: make sure the directory of the
  target exists, copy the file and answer \<^verbatim>\<open>true\<close>; any error is caught and
  answered with \<^verbatim>\<open>false\<close>.
\<close>

definition try_copy :: "world \<Rightarrow> string \<Rightarrow> string \<Rightarrow> world \<times> bool" where
  "try_copy w sourceFilePath targetFilePath =
     (case ensure_dir w (path_dirname targetFilePath) of
        Inl e \<Rightarrow> (w, False)
      | Inr w1 \<Rightarrow>
          (case copyFileSync w1 sourceFilePath targetFilePath of
             Inl e \<Rightarrow> (w1, False)
           | Inr w2 \<Rightarrow> (w2, True)))"

text \<open>
  \<^verbatim>\<open>copyConfigToCursor\<close>: the path lookup is outside the \<^verbatim>\<open>try\<close>, so its error
  leaves the function; the errors of the copy are caught and give \<^verbatim>\<open>false\<close>.
\<close>

definition copyConfigToCursor :: "world \<Rightarrow> string \<Rightarrow> world \<times> (error + bool)" where
  "copyConfigToCursor w dn =
     (case getConfigFilePath w dn of
        (w1, Inl e) \<Rightarrow> (w1, Inl e)
      | (w1, Inr sourceFilePath) \<Rightarrow>
          (let targetFilePath = getCursorMcpPath w1 in
           if \<not> existsSync w1 sourceFilePath then (w1, Inr False)
           else (case try_copy w1 sourceFilePath targetFilePath of (w2, b) \<Rightarrow> (w2, Inr b))))"

text \<open>\<^verbatim>\<open>copyIdpUrlToCursor\<close>: a missing source file is answered with \<^verbatim>\<open>true\<close>.\<close>

definition copyIdpUrlToCursor :: "world \<Rightarrow> string \<Rightarrow> world \<times> (error + bool)" where
  "copyIdpUrlToCursor w dn =
     (case getIdpUrlFilePath w dn of
        (w1, Inl e) \<Rightarrow> (w1, Inl e)
      | (w1, Inr sourceFilePath) \<Rightarrow>
          (let targetFilePath = getCursorIdpUrlPath w1 in
           if \<not> existsSync w1 sourceFilePath then (w1, Inr True)
           else (case try_copy w1 sourceFilePath targetFilePath of (w2, b) \<Rightarrow> (w2, Inr b))))"

section \<open>credentialsSender.ts\<close>

definition getMcpIdpUrlFilePath :: "world \<Rightarrow> string" where
  "getMcpIdpUrlFilePath w =
     path_join (path_join (path_join (home w) ''.cursor'') ''mcp-selector'') ''mcp-idp-url.txt''"

definition mcpIdpUrlFileExists :: "world \<Rightarrow> bool" where
  "mcpIdpUrlFileExists w = existsSync w (getMcpIdpUrlFilePath w)"

definition requiredFilesExist :: "world \<Rightarrow> bool" where
  "requiredFilesExist w = mcpIdpUrlFileExists w"

text \<open>The promise of \<^verbatim>\<open>readMcpIdpUrl\<close>: \<open>Inl\<close> when it rejects.\<close>

definition readMcpIdpUrl :: "world \<Rightarrow> error + string" where
  "readMcpIdpUrl w =
     (let filePath = getMcpIdpUrlFilePath w in
      if \<not> existsSync w filePath then Inl (Error (''MCP IDP URL file not found: '' @ filePath))
      else
        case readFileSync w filePath of
          Inl e \<Rightarrow> Inl (Error ''Failed to read MCP IDP URL file'')
        | Inr data \<Rightarrow>
            (let url = trim data in
             if url = [] then Inl (Error ''MCP IDP URL file is empty'') else Inr url))"

text \<open>
  \<^verbatim>\<open>sendCredentials\<close>. Every error is swallowed by its \<^verbatim>\<open>catch\<close>. What the request to
  the server returns changes nothing in the extension, so the world only records that the
  request was made, with its URL and token. \<open>sendCredentialsCalls\<close> counts the calls of
  the function itself.

  \<^verbatim>\<open>sendCredentialsToMcpServer\<close> builds its promise with an \<^verbatim>\<open>async\<close> executor: when
  \<^verbatim>\<open>new URL(mcpIdpUrl)\<close> raises there (\<open>urlParses\<close> says for which texts it does not),
  neither \<^verbatim>\<open>resolve\<close> nor \<^verbatim>\<open>reject\<close> is ever called, and the \<^verbatim>\<open>await\<close> of
  \<^verbatim>\<open>sendCredentials\<close> never ends. A request that was made ends with a response, an
  error or the timeout of 30 seconds.
\<close>

definition sendCredentials :: "world \<Rightarrow> world \<times> unit promise" where
  "sendCredentials w =
     (let w0 = w\<lparr>sendCredentialsCalls := sendCredentialsCalls w + 1\<rparr>;
          (w1, tokenResult) = replaceTokenTemplateFromSource w0
      in if \<not> mcpIdpUrlFileExists w1 then (w1, Settled ())
         else
           case readMcpIdpUrl w1 of
             Inl e \<Rightarrow> (w1, Settled ())
           | Inr mcpIdpUrl \<Rightarrow>
               (let (w2, uuidToSend) =
                      (case uuid tokenResult of
                         None \<Rightarrow> generateUUID w1
                       | Some u \<Rightarrow> if u = [] then generateUUID w1 else (w1, u))
                in if urlParses w2 mcpIdpUrl
                   then (w2\<lparr>posts := posts w2 @ [(mcpIdpUrl, uuidToSend)]\<rparr>, Settled ())
                   else (w2, Pending)))"

text \<open>
  The module variable \<^verbatim>\<open>credentialsSenderInterval\<close> and the host's interval timers:
  \<^verbatim>\<open>setInterval\<close> makes a timer with a fresh handle, \<^verbatim>\<open>clearInterval\<close> cancels the
  timer of a handle.
\<close>

definition setInterval :: "world \<Rightarrow> world \<times> nat" where
  "setInterval w =
     (w\<lparr>liveIntervals := nextIntervalId w # liveIntervals w,
        nextIntervalId := nextIntervalId w + 1\<rparr>, nextIntervalId w)"

definition clearInterval :: "world \<Rightarrow> nat \<Rightarrow> world" where
  "clearInterval w h = w\<lparr>liveIntervals := removeAll h (liveIntervals w)\<rparr>"

text \<open>
  \<^verbatim>\<open>startCredentialsSender\<close> does not wait for the promise of \<^verbatim>\<open>sendCredentials\<close>.
\<close>

definition startCredentialsSender :: "world \<Rightarrow> world" where
  "startCredentialsSender w =
     (if credentialsSenderInterval w \<noteq> None then w
      else if \<not> requiredFilesExist w then w
      else
        (let (w1, sent) = sendCredentials w;
             (w2, h) = setInterval w1
         in w2\<lparr>credentialsSenderInterval := Some h\<rparr>))"

definition stopCredentialsSender :: "world \<Rightarrow> world" where
  "stopCredentialsSender w =
     (case credentialsSenderInterval w of
        None \<Rightarrow> w
      | Some h \<Rightarrow> (clearInterval w h)\<lparr>credentialsSenderInterval := None\<rparr>)"

section \<open>configManager.ts: the switch\<close>

text \<open>
  \<^verbatim>\<open>switchToEnvironment\<close>. \<open>Settled (Inl e)\<close> is the rejected promise: the two copy
  functions are called before anything else, and an error of theirs leaves the function.
  The function waits for \<^verbatim>\<open>sendCredentials\<close>.
\<close>

definition switchToEnvironment :: "world \<Rightarrow> string \<Rightarrow> world \<times> (error + bool) promise" where
  "switchToEnvironment w dn =
     (case copyConfigToCursor w dn of
        (w1, Inl e) \<Rightarrow> (w1, Settled (Inl e))
      | (w1, Inr configCopied) \<Rightarrow>
          (case copyIdpUrlToCursor w1 dn of
             (w2, Inl e) \<Rightarrow> (w2, Settled (Inl e))
           | (w2, Inr idpUrlCopied) \<Rightarrow>
               (let ok = configCopied;
                    w3 = w2\<lparr>mcpCurrentEnv := Some dn\<rparr>;
                    w4 = (if ok then fst (replaceTokenTemplateFromSource w3) else w3);
                    w5 = addCursorRulesToWorkspace w4
                in if ok \<and> idpUrlCopied
                   then (case sendCredentials w5 of
                           (w6, Pending) \<Rightarrow> (w6, Pending)
                         | (w6, Settled u) \<Rightarrow> (w6, Settled (Inr ok)))
                   else (w5, Settled (Inr ok)))))"

section \<open>statusBar.ts\<close>

definition getEnvironmentColor :: "world \<Rightarrow> string \<Rightarrow> world \<times> string" where
  "getEnvironmentColor w dn =
     (let (w1, envConfig) = loadEnvironmentConfiguration w in
      case find (\<lambda>e. displayName e = dn) (environments envConfig) of
        None \<Rightarrow> (w1, ''#4caf50'')
      | Some env \<Rightarrow>
          if totalCount envConfig = 1 then (w1, ''#4caf50'')
          else if position env = 0 then (w1, ''#4caf50'')
          else if int (position env) = int (totalCount envConfig) - 1 then (w1, ''#f44336'')
          else (w1, ''#ff9800''))"

definition getEnvironmentIcon :: "world \<Rightarrow> string \<Rightarrow> world \<times> string" where
  "getEnvironmentIcon w dn =
     (let (w1, envConfig) = loadEnvironmentConfiguration w in
      case find (\<lambda>e. displayName e = dn) (environments envConfig) of
        None \<Rightarrow> (w1, ''$(desktop-download)'')
      | Some env \<Rightarrow>
          if totalCount envConfig = 1 then (w1, ''$(desktop-download)'')
          else if position env = 0 then (w1, ''$(desktop-download)'')
          else if int (position env) = int (totalCount envConfig) - 1 then (w1, ''$(rocket)'')
          else (w1, ''$(beaker)''))"

definition getDefaultEnvironment :: "world \<Rightarrow> world \<times> string" where
  "getDefaultEnvironment w =
     (let (w1, envConfig) = loadEnvironmentConfiguration w in
      case environments envConfig of
        [] \<Rightarrow> (w1, ''Local'')
      | e # es \<Rightarrow> if displayName e = [] then (w1, ''Local'') else (w1, displayName e))"

text \<open>
  \<^verbatim>\<open>context.workspaceState.get('mcpCurrentEnv') || getDefaultEnvironment()\<close>: the
  configuration is loaded only when nothing usable is stored.
\<close>

definition stored_or_default :: "world \<Rightarrow> world \<times> string" where
  "stored_or_default w =
     (case mcpCurrentEnv w of
        None \<Rightarrow> getDefaultEnvironment w
      | Some s \<Rightarrow> if s = [] then getDefaultEnvironment w else (w, s))"

text \<open>
  \<^verbatim>\<open>updateStatusBarEnvironment\<close>. Writing to the item when the module variable is
  still \<^verbatim>\<open>undefined\<close> raises a TypeError, after the right-hand side was computed.
\<close>

definition updateStatusBarEnvironment :: "world \<Rightarrow> world \<times> (error + unit)" where
  "updateStatusBarEnvironment w =
     (let (w1, currentEnv) = stored_or_default w;
          (w2, icon) = getEnvironmentIcon w1 currentEnv
      in case statusBarItem w2 of
           None \<Rightarrow> (w2, Inl TypeError)
         | Some item \<Rightarrow>
             (let item1 = item\<lparr>sb_text := icon @ '' MCP: '' @ currentEnv\<rparr>;
                  (w3, color) = getEnvironmentColor (w2\<lparr>statusBarItem := Some item1\<rparr>) currentEnv;
                  item2 = item1\<lparr>sb_color := color\<rparr>
              in case getConfigFilePath (w3\<lparr>statusBarItem := Some item2\<rparr>) currentEnv of
                   (w4, Inl e) \<Rightarrow> (w4, Inl e)
                 | (w4, Inr configPath) \<Rightarrow>
                     (let cursorPath = getCursorMcpPath w4;
                          item3 = item2\<lparr>sb_tooltip :=
                            ''Current MCP Environment: '' @ currentEnv @ [CHR 0x0A] @
                            ''Source: '' @ configPath @ [CHR 0x0A] @
                            ''Active: '' @ cursorPath @ [CHR 0x0A, CHR 0x0A] @
                            ''Click to select environment''\<rparr>
                      in (w4\<lparr>statusBarItem := Some item3\<rparr>, Inr ()))))"

section \<open>mcpSelector.ts\<close>

text \<open>\<^verbatim>\<open>xs.findIndex(p)\<close>: -1 when no element satisfies \<open>p\<close>.\<close>

fun findIndex :: "('a \<Rightarrow> bool) \<Rightarrow> 'a list \<Rightarrow> int" where
  "findIndex p [] = - 1"
| "findIndex p (x # xs) =
     (if p x then 0 else (let i = findIndex p xs in if i = - 1 then - 1 else i + 1))"

text \<open>The text of an error inside a message is not modelled: the error is kept as a value.\<close>

definition show_message :: "string \<Rightarrow> world \<Rightarrow> world" where
  "show_message m w = w\<lparr>messages := messages w @ [m]\<rparr>"

text \<open>
  \<^verbatim>\<open>switchEnvironment\<close>, the cycle to the next environment. The promise of
  \<^verbatim>\<open>switchToEnvironment\<close> is followed to its end; while it is pending no message is
  shown.
\<close>

definition switchEnvironment :: "world \<Rightarrow> world" where
  "switchEnvironment w =
     (let (w1, envConfig) = loadEnvironmentConfiguration w in
      if length (environments envConfig) = 0
      then show_message ''No MCP environments available'' w1
      else
        (let (w2, currentEnv) = stored_or_default w1;
             currentIndex = findIndex (\<lambda>e. displayName e = currentEnv) (environments envConfig);
             nextIndex = (currentIndex + 1) mod int (length (environments envConfig));
             nextEnv = displayName (environments envConfig ! nat nextIndex);
             w3 = w2\<lparr>mcpCurrentEnv := Some nextEnv\<rparr>
         in case updateStatusBarEnvironment w3 of
              (w4, Inl e) \<Rightarrow> show_message ''Error switching environment'' w4
            | (w4, Inr u) \<Rightarrow>
                (case switchToEnvironment w4 nextEnv of
                   (w5, Pending) \<Rightarrow> w5
                 | (w5, Settled (Inl e)) \<Rightarrow> show_message (''Error switching to '' @ nextEnv) w5
                 | (w5, Settled (Inr ok)) \<Rightarrow>
                     if ok then show_message (''Switched MCP environment to '' @ nextEnv) w5
                     else show_message (''Failed to switch to '' @ nextEnv @
                            ''. Check if config file exists.'') w5)))"

section \<open>Words of the specification\<close>

text \<open>
  The tiers of the specification and its \<open>classify\<close>: "if totalCount == 1, tier = SAFE;
  else if position == 0, tier = SAFE; else if position == totalCount - 1, tier = CRITICAL;
  else tier = CAUTION". The hues and glyphs of the tiers are the ones of the source.
\<close>

datatype tier = SAFE | CAUTION | CRITICAL

definition classify :: "nat \<Rightarrow> nat \<Rightarrow> tier" where
  "classify p n =
     (if n = 1 then SAFE else if p = 0 then SAFE
      else if int p = int n - 1 then CRITICAL else CAUTION)"

fun tier_color :: "tier \<Rightarrow> string" where
  "tier_color SAFE = ''#4caf50''"
| "tier_color CAUTION = ''#ff9800''"
| "tier_color CRITICAL = ''#f44336''"

fun tier_icon :: "tier \<Rightarrow> string" where
  "tier_icon SAFE = ''$(desktop-download)''"
| "tier_icon CAUTION = ''$(beaker)''"
| "tier_icon CRITICAL = ''$(rocket)''"

text \<open>
  The canonical re-serialization of a collection: one line
  \<^verbatim>\<open>displayName:configFileName\<close> per descriptor, in sequence order.
\<close>

fun serialize_envs :: "EnvironmentConfig list \<Rightarrow> string" where
  "serialize_envs [] = []"
| "serialize_envs [e] = displayName e @ '':'' @ configFileName e"
| "serialize_envs (e # es) =
     displayName e @ '':'' @ configFileName e @ [CHR 0x0A] @ serialize_envs es"

definition serialize :: "EnvironmentCollection \<Rightarrow> string" where
  "serialize c = serialize_envs (environments c)"

section \<open>Worlds to run the code in\<close>

text \<open>
  A home directory \<^verbatim>\<open>/h\<close> whose properties file holds the given text, with the
  directories of the extension in place and nothing else. The texts that start with
  \<^verbatim>\<open>https://\<close> parse as URLs.
\<close>

definition props_file :: string where
  "props_file = ''/h/.cursor/mcp-selector/mcp-environments.props''"

definition world_with :: "string \<Rightarrow> world" where
  "world_with props =
     \<lparr>home = ''/h'',
      files = [props_file \<mapsto> props],
      dirs = {''/h'', ''/h/.cursor'', ''/h/.cursor/mcp-selector'', ''/h/.cursor/mcp-selector/envs''},
      unreadable = {}, readonly = {},
      mcpCurrentEnv = None, workspaceFolders = [], foldersRefused = False,
      statusBarItem = None, messages = [],
      credentialsSenderInterval = None, liveIntervals = [], nextIntervalId = 0,
      uuids = (\<lambda>n. ''uuid-'' @ string_of_nat n), uuidsDrawn = 0,
      urlParses = (\<lambda>u. startsWith u ''https://''),
      sendCredentialsCalls = 0, posts = []\<rparr>"

definition add_file :: "string \<Rightarrow> string \<Rightarrow> world \<Rightarrow> world" where
  "add_file p content w = w\<lparr>files := (files w)(p \<mapsto> content)\<rparr>"


text \<open>Texts of properties files, from the repository's tests and after them.\<close>

definition only_a_comment :: string where
  "only_a_comment = ''# No environments''"

definition malformed_then_valid :: string where
  "malformed_then_valid = ''InvalidLine'' @ [CHR 0x0A] @ ''Valid:file''"

definition idp_world :: world where
  "idp_world = add_file ''/h/.cursor/mcp-selector/mcp-idp-url.txt'' ''https://idp.example/token''
                 (world_with DEFAULT_ENVIRONMENTS_CONTENT)"

section \<open>What the operations leave alone\<close>

text \<open>
  The fields that no file operation, no load and no copy touches. An operation that
  keeps \<open>ctl\<close> keeps the persisted current environment, the timer handle, the host's
  timers and the count of calls of \<^verbatim>\<open>sendCredentials\<close>.
\<close>

definition ctl :: "world \<Rightarrow> string \<times> string set \<times> string set \<times> string option \<times> bool \<times>
    StatusBarItem option \<times> string list \<times> nat option \<times> nat list \<times> nat \<times> nat" where
  "ctl w = (home w, unreadable w, readonly w, mcpCurrentEnv w, foldersRefused w, statusBarItem w,
            messages w, credentialsSenderInterval w, liveIntervals w, nextIntervalId w,
            sendCredentialsCalls w)"

section \<open>The states of the credentials sender\<close>

text \<open>
  The states the extension can be in: at the beginning the module variable is
  \<^verbatim>\<open>undefined\<close> and the module has no timer; then \<^verbatim>\<open>startCredentialsSender\<close> and
  \<^verbatim>\<open>stopCredentialsSender\<close> are called in any order. Nothing else in the extension
  writes the module variable or touches a timer, so whatever happens in between (files
  change, environments are switched, a timer fires) leaves both as they are.
\<close>

inductive reachable :: "world \<Rightarrow> bool" where
  initial: "credentialsSenderInterval w = None \<Longrightarrow> liveIntervals w = [] \<Longrightarrow> reachable w"
| start: "reachable w \<Longrightarrow> reachable (startCredentialsSender w)"
| stop: "reachable w \<Longrightarrow> reachable (stopCredentialsSender w)"
| other: "reachable w \<Longrightarrow> credentialsSenderInterval w' = credentialsSenderInterval w \<Longrightarrow>
          liveIntervals w' = liveIntervals w \<Longrightarrow> reachable w'"

text \<open>
  One environment \<^verbatim>\<open>A\<close> with its configuration file; then the same with a global
  endpoint-URL file left by an earlier switch and no companion file of \<^verbatim>\<open>A\<close>; then
  with the companion file of \<^verbatim>\<open>A\<close>; then with the companion file and a target of
  its copy that cannot be written.
\<close>

definition env_a_world :: world where
  "env_a_world = add_file ''/h/.cursor/mcp-selector/envs/a.json'' ''{}'' (world_with ''A:a'')"

definition stale_url_world :: world where
  "stale_url_world =
     add_file ''/h/.cursor/mcp-selector/mcp-idp-url.txt'' ''https://idp.example/token'' env_a_world"

definition companion_world :: world where
  "companion_world =
     add_file ''/h/.cursor/mcp-selector/envs/a-idp-url.txt'' ''https://idp.example/a'' env_a_world"

definition blocked_copy_world :: world where
  "blocked_copy_world = companion_world\<lparr>readonly := {''/h/.cursor/mcp-selector/mcp-idp-url.txt''}\<rparr>"

text \<open>
  The three default environments, with nothing stored; then with a stored current
  environment: the first, the last, one that is not in the collection.
\<close>

definition three_world :: world where
  "three_world = world_with DEFAULT_ENVIRONMENTS_CONTENT"

definition at_prod :: world where
  "at_prod = three_world\<lparr>mcpCurrentEnv := Some ''Prod''\<rparr>"

definition at_local :: world where
  "at_local = three_world\<lparr>mcpCurrentEnv := Some ''Local''\<rparr>"

definition at_gone :: world where
  "at_gone = three_world\<lparr>mcpCurrentEnv := Some ''Gone''\<rparr>"

definition dev_env :: EnvironmentConfig where
  "dev_env = \<lparr>displayName = ''Dev'', configFileName = ''mcp-dev.json'', position = 1\<rparr>"

text \<open>
  Two lines with the same display name; and an environment whose file is named
  \<^verbatim>\<open>.json\<close> and nothing more.
\<close>

definition twice_a_world :: world where
  "twice_a_world = world_with (''A:x'' @ [CHR 0x0A] @ ''A:y'')"

definition only_suffix_world :: world where
  "only_suffix_world = world_with ''A:.json''"


text \<open>
  A malformed line between two environments; and a global endpoint-URL file whose text
  does not parse as a URL.
\<close>

definition gap_world :: world where
  "gap_world = world_with (''Local:a'' @ [CHR 0x0A] @ ''broken'' @ [CHR 0x0A] @ ''Prod:b'')"

definition bad_url_world :: world where
  "bad_url_world = add_file ''/h/.cursor/mcp-selector/mcp-idp-url.txt'' ''idp.example'' env_a_world"

section \<open>Words for the round trip through the canonical text\<close>

text \<open>
  A text is trimmed when \<^verbatim>\<open>trim\<close> leaves it as it is. \<open>line_of\<close> is the canonical line
  of a descriptor, \<open>renumber\<close> gives a sequence of descriptors the positions
  \<open>k, k + 1, \<dots>\<close>, and a descriptor is well formed when its canonical line parses back
  to it.
\<close>

definition trimmed :: "string \<Rightarrow> bool" where
  "trimmed s = (s = [] \<or> \<not> is_ws (hd s) \<and> \<not> is_ws (last s))"

definition line_of :: "EnvironmentConfig \<Rightarrow> string" where
  "line_of e = displayName e @ '':'' @ configFileName e"

fun renumber :: "nat \<Rightarrow> EnvironmentConfig list \<Rightarrow> EnvironmentConfig list" where
  "renumber k [] = []"
| "renumber k (e # es) = e\<lparr>position := k\<rparr> # renumber (k + 1) es"

definition well_formed :: "EnvironmentConfig \<Rightarrow> bool" where
  "well_formed e =
     (displayName e \<noteq> [] \<and> trimmed (displayName e) \<and> CHR '':'' \<notin> set (displayName e)
      \<and> CHR 0x0A \<notin> set (displayName e) \<and> hd (displayName e) \<noteq> CHR ''#''
      \<and> trimmed (configFileName e) \<and> CHR 0x0A \<notin> set (configFileName e)
      \<and> endsWith (configFileName e) ''.json'')"

section \<open>Properties of the parser and the loader\<close>

text \<open>
  What the loader returns: the parse of the file's text when the file is there and can be
  read, and the three default entries when it is missing or cannot be read.
\<close>

lemma default_collection:
  "parseEnvironmentProps DEFAULT_ENVIRONMENTS_CONTENT =
     \<lparr>environments =
        [\<lparr>displayName = ''Local'', configFileName = ''mcp-local.json'', position = 0\<rparr>,
         \<lparr>displayName = ''Dev'', configFileName = ''mcp-dev.json'', position = 1\<rparr>,
         \<lparr>displayName = ''Prod'', configFileName = ''mcp-prod.json'', position = 2\<rparr>],
      totalCount = 3\<rparr>"
  by code_simp

lemma loader_result_present:
  assumes "existsSync w (getEnvironmentPropsPath w)"
  shows "snd (loadEnvironmentConfiguration w) =
           (case readFileSync w (getEnvironmentPropsPath w) of
              Inl e \<Rightarrow> parseEnvironmentProps DEFAULT_ENVIRONMENTS_CONTENT
            | Inr content \<Rightarrow> parseEnvironmentProps content)"
  using assms by (simp add: loadEnvironmentConfiguration_def Let_def split: sum.splits)

lemma loader_result_missing:
  assumes "\<not> existsSync w (getEnvironmentPropsPath w)"
  shows "snd (loadEnvironmentConfiguration w) = parseEnvironmentProps DEFAULT_ENVIRONMENTS_CONTENT"
proof -
  define pp where "pp = getEnvironmentPropsPath w"
  obtain w1 r where c: "createDefaultEnvironmentProps w = (w1, r)"
    by (cases "createDefaultEnvironmentProps w")
  show ?thesis
  proof (cases r)
    case (Inl e)
    then show ?thesis using assms c by (simp add: loadEnvironmentConfiguration_def)
  next
    case (Inr u)
    have "\<exists>wa. w1 = wa\<lparr>files := (files wa)(pp \<mapsto> DEFAULT_ENVIRONMENTS_CONTENT)\<rparr>"
      using c Inr
      by (auto simp: createDefaultEnvironmentProps_def Let_def writeFileSync_def pp_def
          split: sum.splits if_splits)
    then have "readFileSync w1 pp = Inr DEFAULT_ENVIRONMENTS_CONTENT \<or> (\<exists>e. readFileSync w1 pp = Inl e)"
      by (auto simp: readFileSync_def)
    then show ?thesis
      using assms c Inr
      by (auto simp: loadEnvironmentConfiguration_def Let_def pp_def [symmetric])
  qed
qed

text \<open>
  The position of a descriptor is the index of its line among the candidate lines; when
  no candidate line is dropped the positions are \<open>0, 1, \<dots>\<close> in order.
\<close>

lemma parse_line_position:
  "parse_line k l = Some e \<Longrightarrow> position e = k"
  by (auto simp: parse_line_def Let_def split: option.splits prod.splits if_splits)

lemma parse_line_accepts:
  "(parse_line k l = None) = (parse_line 0 l = None)"
  by (auto simp: parse_line_def Let_def split: option.splits prod.splits if_splits)

lemma positions_without_dropped_lines:
  "\<forall>l \<in> set ls. parse_line 0 l \<noteq> None \<Longrightarrow>
   map position (parse_lines k ls) = [k ..< k + length ls]"
proof (induction ls arbitrary: k)
  case Nil
  then show ?case by simp
next
  case (Cons l ls)
  obtain e where e: "parse_line k l = Some e"
    using Cons.prems parse_line_accepts [of k l] by (cases "parse_line k l") auto
  have "map position (parse_lines (k + 1) ls) = [k + 1 ..< k + 1 + length ls]"
    using Cons by simp
  then show ?case
    using e parse_line_position [OF e] by (simp add: upt_rec)
qed

text \<open>
  A second load gives what the first gave and changes nothing more: the first has
  created the file when it was missing and could be created. The display names of a
  loaded collection are not empty.
\<close>

lemma props_dir:
  "path_dirname (getEnvironmentPropsPath w) = path_join (path_join (home w) ''.cursor'') ''mcp-selector''"
  by (simp add: path_dirname_def getEnvironmentPropsPath_def path_join_def)

lemma props_dir_differs: "path_dirname (getEnvironmentPropsPath w) \<noteq> getEnvironmentPropsPath w"
  by (simp add: props_dir) (simp add: getEnvironmentPropsPath_def path_join_def)

lemma props_path_home: "home w' = home w \<Longrightarrow> getEnvironmentPropsPath w' = getEnvironmentPropsPath w"
  by (simp add: getEnvironmentPropsPath_def)

lemma load_when_present:
  "existsSync w (getEnvironmentPropsPath w) \<Longrightarrow> fst (loadEnvironmentConfiguration w) = w"
  by (simp add: loadEnvironmentConfiguration_def Let_def split: sum.splits)

lemma load_again:
  "loadEnvironmentConfiguration (fst (loadEnvironmentConfiguration w)) = loadEnvironmentConfiguration w"
proof (cases "existsSync w (getEnvironmentPropsPath w)")
  case True
  then show ?thesis by (simp add: load_when_present)
next
  case False
  define pp where "pp = getEnvironmentPropsPath w"
  define dir where "dir = path_dirname pp"
  have nd: "dir \<noteq> pp" using props_dir_differs [of w] by (simp add: dir_def pp_def)
  have absent: "pp \<notin> dirs w" "files w pp = None"
    using False by (simp_all add: existsSync_def pp_def)
  show ?thesis
  proof (cases "ensure_dir w dir")
    case (Inl e)
    then have "fst (loadEnvironmentConfiguration w) = w"
      using False
      by (simp add: loadEnvironmentConfiguration_def createDefaultEnvironmentProps_def Let_def
          pp_def dir_def)
    then show ?thesis by simp
  next
    case (Inr wa)
    have wa: "wa = w \<or> wa = w\<lparr>dirs := insert dir (dirs w)\<rparr>"
      using Inr by (auto simp: ensure_dir_def mkdirSync_def split: if_splits)
    have pa: "getEnvironmentPropsPath wa = pp"
      using wa by (auto simp: getEnvironmentPropsPath_def pp_def)
    have dir_a: "existsSync wa dir"
      using Inr by (auto simp: ensure_dir_def mkdirSync_def existsSync_def split: if_splits)
    have absent_a: "\<not> existsSync wa pp"
      using wa absent nd by (auto simp: existsSync_def)
    show ?thesis
    proof (cases "writeFileSync wa pp DEFAULT_ENVIRONMENTS_CONTENT")
      case (Inl e)
      have first: "loadEnvironmentConfiguration w = (wa, parseEnvironmentProps DEFAULT_ENVIRONMENTS_CONTENT)"
        using False Inr Inl
        by (simp add: loadEnvironmentConfiguration_def createDefaultEnvironmentProps_def Let_def
            pp_def [symmetric] dir_def [symmetric])
      have "loadEnvironmentConfiguration wa = (wa, parseEnvironmentProps DEFAULT_ENVIRONMENTS_CONTENT)"
        using absent_a dir_a Inl
        by (simp add: loadEnvironmentConfiguration_def createDefaultEnvironmentProps_def Let_def
            pa dir_def [symmetric] ensure_dir_def)
      then show ?thesis using first by simp
    next
      case (Inr wb)
      have wb: "wb = wa\<lparr>files := (files wa)(pp \<mapsto> DEFAULT_ENVIRONMENTS_CONTENT)\<rparr>"
        using Inr by (auto simp: writeFileSync_def split: if_splits)
      have pb: "getEnvironmentPropsPath wb = pp"
        using wb pa by (simp add: getEnvironmentPropsPath_def)
      have there: "existsSync wb pp" using wb by (simp add: existsSync_def)
      have first: "loadEnvironmentConfiguration w =
          (wb, case readFileSync wb pp of
                 Inl e \<Rightarrow> parseEnvironmentProps DEFAULT_ENVIRONMENTS_CONTENT
               | Inr content \<Rightarrow> parseEnvironmentProps content)"
        using False \<open>ensure_dir w dir = Inr wa\<close> Inr
        by (simp add: loadEnvironmentConfiguration_def createDefaultEnvironmentProps_def Let_def
            pp_def [symmetric] dir_def [symmetric] split: sum.splits)
      have "loadEnvironmentConfiguration wb =
          (wb, case readFileSync wb pp of
                 Inl e \<Rightarrow> parseEnvironmentProps DEFAULT_ENVIRONMENTS_CONTENT
               | Inr content \<Rightarrow> parseEnvironmentProps content)"
        using there by (simp add: loadEnvironmentConfiguration_def Let_def pb split: sum.splits)
      then show ?thesis using first by simp
    qed
  qed
qed

lemma parse_totalCount: "totalCount (parseEnvironmentProps t) = length (environments (parseEnvironmentProps t))"
  by (simp add: parseEnvironmentProps_def Let_def)

lemma load_is_parse: "\<exists>t. snd (loadEnvironmentConfiguration w) = parseEnvironmentProps t"
  by (auto simp: loadEnvironmentConfiguration_def Let_def split: prod.splits sum.splits)

lemma load_totalCount:
  "totalCount (snd (loadEnvironmentConfiguration w)) =
     length (environments (snd (loadEnvironmentConfiguration w)))"
  using load_is_parse [of w] parse_totalCount by auto

lemma parse_lines_names: "e \<in> set (parse_lines k ls) \<Longrightarrow> displayName e \<noteq> []"
  by (induction ls arbitrary: k)
     (auto simp: parse_line_def Let_def split: option.splits if_splits prod.splits)

lemma loaded_names:
  "e \<in> set (environments (snd (loadEnvironmentConfiguration w))) \<Longrightarrow> displayName e \<noteq> []"
  using load_is_parse [of w] parse_lines_names
  by (auto simp: parseEnvironmentProps_def Let_def)

text \<open>
  After a dropped line the last of two environments is neither first nor at
  \<open>totalCount - 1\<close>, and is shown in the colour and icon of the middle tier.
\<close>

lemma last_of_two_is_caution:
  "map displayName (environments (snd (loadEnvironmentConfiguration gap_world))) = [''Local'', ''Prod'']
   \<and> snd (getEnvironmentColor gap_world ''Prod'') = tier_color CAUTION
   \<and> snd (getEnvironmentIcon gap_world ''Prod'') = tier_icon CAUTION"
  by code_simp

text \<open>
  C1 (the code departs from the claim): the claim says that the loader never returns a
  collection with zero environments, and that it substitutes the three default entries
  when the candidate lines of the file yield no entry. The loader computes the text
  validator's result and does not look at its \<open>isValid\<close>: for a properties file that holds
  only a comment, the input of the repository's test "Handle empty environment list",
  validation fails with "No environments defined" and the loader returns the empty
  collection.
\<close>

theorem C1_loader_returns_empty_collection:
  "environments (snd (loadEnvironmentConfiguration (world_with only_a_comment))) = []
   \<and> totalCount (snd (loadEnvironmentConfiguration (world_with only_a_comment))) = 0
   \<and> validateEnvironmentProps only_a_comment =
       \<lparr>isValid = False, errors = [''No environments defined''], warnings = []\<rparr>"
  by code_simp

text \<open>
  C2 (the code departs from the claim): the claim says that the position of a descriptor
  is its index among the accepted lines. The parser stores the index among the candidate
  lines, dropped ones included: after one malformed line the only descriptor has
  position 1 in a collection of one.
\<close>

theorem C2_position_counts_dropped_lines:
  "parseEnvironmentProps malformed_then_valid =
     \<lparr>environments = [\<lparr>displayName = ''Valid'', configFileName = ''file.json'', position = 1\<rparr>],
      totalCount = 1\<rparr>"
  by code_simp

text \<open>
  C5 (the code departs from the claim): the claim says that parsing the canonical
  re-serialization of a parsed collection gives the collection back, positions included.
  For the text with one malformed line the re-serialization is the single line
  \<^verbatim>\<open>Valid:file.json\<close>, which parses to position 0, while the first parse gave position 1.
\<close>

theorem C5_reparse_changes_positions:
  "serialize (parseEnvironmentProps malformed_then_valid) = ''Valid:file.json''
   \<and> parseEnvironmentProps (serialize (parseEnvironmentProps malformed_then_valid)) =
       \<lparr>environments = [\<lparr>displayName = ''Valid'', configFileName = ''file.json'', position = 0\<rparr>],
        totalCount = 1\<rparr>
   \<and> parseEnvironmentProps (serialize (parseEnvironmentProps malformed_then_valid))
       \<noteq> parseEnvironmentProps malformed_then_valid"
  by code_simp

section \<open>Frame lemmas\<close>

lemma ctl_fields:
  assumes "ctl w' = ctl w"
  shows "home w' = home w \<and> mcpCurrentEnv w' = mcpCurrentEnv w
    \<and> credentialsSenderInterval w' = credentialsSenderInterval w
    \<and> liveIntervals w' = liveIntervals w \<and> nextIntervalId w' = nextIntervalId w
    \<and> sendCredentialsCalls w' = sendCredentialsCalls w
    \<and> statusBarItem w' = statusBarItem w \<and> messages w' = messages w"
  using assms by (simp add: ctl_def)

lemma ctl_updates [simp]:
  "ctl (w\<lparr>files := f\<rparr>) = ctl w" "ctl (w\<lparr>dirs := d\<rparr>) = ctl w"
  "ctl (w\<lparr>workspaceFolders := fl\<rparr>) = ctl w" "ctl (w\<lparr>uuidsDrawn := u\<rparr>) = ctl w"
  "ctl (w\<lparr>posts := ps\<rparr>) = ctl w"
  by (simp_all add: ctl_def)

lemma writeFileSync_ctl: "writeFileSync w p c = Inr w' \<Longrightarrow> ctl w' = ctl w"
  by (auto simp: writeFileSync_def split: if_splits)

lemma mkdirSync_ctl: "mkdirSync w p = Inr w' \<Longrightarrow> ctl w' = ctl w"
  by (auto simp: mkdirSync_def split: if_splits)

lemma ensure_dir_ctl: "ensure_dir w p = Inr w' \<Longrightarrow> ctl w' = ctl w"
  by (auto simp: ensure_dir_def mkdirSync_ctl split: if_splits)

lemma copyFileSync_ctl: "copyFileSync w a b = Inr w' \<Longrightarrow> ctl w' = ctl w"
  by (auto simp: copyFileSync_def writeFileSync_ctl split: sum.splits)

lemma createDefault_ctl: "createDefaultEnvironmentProps w = (w', r) \<Longrightarrow> ctl w' = ctl w"
  by (auto simp: createDefaultEnvironmentProps_def Let_def split: sum.splits
      dest!: ensure_dir_ctl writeFileSync_ctl)

lemma load_ctl: "loadEnvironmentConfiguration w = (w', c) \<Longrightarrow> ctl w' = ctl w"
  by (auto simp: loadEnvironmentConfiguration_def Let_def split: sum.splits prod.splits if_splits
      dest!: createDefault_ctl)

lemma getConfigFileBase_ctl: "getConfigFileBase w d = (w', r) \<Longrightarrow> ctl w' = ctl w"
  by (auto simp: getConfigFileBase_def Let_def split: prod.splits option.splits dest!: load_ctl)

lemma getConfigFilePath_ctl: "getConfigFilePath w d = (w', r) \<Longrightarrow> ctl w' = ctl w"
  by (auto simp: getConfigFilePath_def Let_def split: prod.splits option.splits if_splits
      dest!: getConfigFileBase_ctl)

lemma getIdpUrlFilePath_ctl: "getIdpUrlFilePath w d = (w', r) \<Longrightarrow> ctl w' = ctl w"
  by (auto simp: getIdpUrlFilePath_def Let_def split: prod.splits option.splits if_splits
      dest!: getConfigFileBase_ctl)

lemma getCurrentEnvironment_ctl: "getCurrentEnvironment w = (w', r) \<Longrightarrow> ctl w' = ctl w"
  by (auto simp: getCurrentEnvironment_def Let_def split: prod.splits dest!: load_ctl)

lemma getDefaultEnvironment_ctl: "getDefaultEnvironment w = (w', r) \<Longrightarrow> ctl w' = ctl w"
  by (auto simp: getDefaultEnvironment_def Let_def split: prod.splits list.splits if_splits
      dest!: load_ctl)

lemma stored_or_default_ctl: "stored_or_default w = (w', r) \<Longrightarrow> ctl w' = ctl w"
  by (auto simp: stored_or_default_def split: option.splits if_splits
      dest!: getDefaultEnvironment_ctl)

lemma getEnvironmentColor_ctl: "getEnvironmentColor w d = (w', r) \<Longrightarrow> ctl w' = ctl w"
  by (auto simp: getEnvironmentColor_def Let_def split: prod.splits option.splits if_splits
      dest!: load_ctl)

lemma getEnvironmentIcon_ctl: "getEnvironmentIcon w d = (w', r) \<Longrightarrow> ctl w' = ctl w"
  by (auto simp: getEnvironmentIcon_def Let_def split: prod.splits option.splits if_splits
      dest!: load_ctl)

lemma try_copy_ctl: "try_copy w src tgt = (w', b) \<Longrightarrow> ctl w' = ctl w"
  by (auto simp: try_copy_def split: sum.splits dest!: ensure_dir_ctl copyFileSync_ctl)

lemma copyConfigToCursor_ctl: "copyConfigToCursor w d = (w', r) \<Longrightarrow> ctl w' = ctl w"
  by (auto simp: copyConfigToCursor_def Let_def split: prod.splits sum.splits if_splits
      dest!: try_copy_ctl getConfigFilePath_ctl)

lemma copyIdpUrlToCursor_ctl: "copyIdpUrlToCursor w d = (w', r) \<Longrightarrow> ctl w' = ctl w"
  by (auto simp: copyIdpUrlToCursor_def Let_def split: prod.splits sum.splits if_splits
      dest!: try_copy_ctl getIdpUrlFilePath_ctl)

lemma generateUUID_ctl: "generateUUID w = (w', u) \<Longrightarrow> ctl w' = ctl w"
  by (auto simp: generateUUID_def)

lemma addCursorRules_ctl: "ctl (addCursorRulesToWorkspace w) = ctl w"
  by (auto simp: addCursorRulesToWorkspace_def Let_def split: sum.splits dest!: ensure_dir_ctl)

lemma replaceToken_ctl: "replaceTokenTemplateFromSource w = (w', r) \<Longrightarrow> ctl w' = ctl w"
  by (auto simp: replaceTokenTemplateFromSource_def Let_def
      split: prod.splits sum.splits if_splits
      dest!: getCurrentEnvironment_ctl getConfigFilePath_ctl generateUUID_ctl ensure_dir_ctl
        writeFileSync_ctl)


lemma ctl_calls [simp]:
  "ctl (w\<lparr>sendCredentialsCalls := n\<rparr>) =
     (home w, unreadable w, readonly w, mcpCurrentEnv w, foldersRefused w, statusBarItem w,
      messages w, credentialsSenderInterval w, liveIntervals w, nextIntervalId w, n)"
  by (simp add: ctl_def)

lemma sendCredentials_ctl:
  "ctl (fst (sendCredentials w)) = ctl (w\<lparr>sendCredentialsCalls := sendCredentialsCalls w + 1\<rparr>)"
  by (auto simp: sendCredentials_def Let_def split: prod.splits sum.splits option.splits if_splits
      dest!: replaceToken_ctl generateUUID_ctl)

lemma sendCredentials_calls:
  "sendCredentialsCalls (fst (sendCredentials w)) = sendCredentialsCalls w + 1"
  using sendCredentials_ctl [of w] by (simp add: ctl_def)

lemma sendCredentials_env: "mcpCurrentEnv (fst (sendCredentials w)) = mcpCurrentEnv w"
  using sendCredentials_ctl [of w] by (simp add: ctl_def)

lemma sendCredentials_timers:
  "credentialsSenderInterval (fst (sendCredentials w)) = credentialsSenderInterval w
   \<and> liveIntervals (fst (sendCredentials w)) = liveIntervals w
   \<and> nextIntervalId (fst (sendCredentials w)) = nextIntervalId w"
  using sendCredentials_ctl [of w] by (simp add: ctl_def)

section \<open>The credentials sender\<close>

lemma start_timers:
  "liveIntervals w = (case credentialsSenderInterval w of None \<Rightarrow> [] | Some h \<Rightarrow> [h]) \<Longrightarrow>
   liveIntervals (startCredentialsSender w) =
     (case credentialsSenderInterval (startCredentialsSender w) of None \<Rightarrow> [] | Some h \<Rightarrow> [h])"
  using sendCredentials_timers [of w]
  by (cases "sendCredentials w")
     (auto simp: startCredentialsSender_def setInterval_def Let_def split: option.splits)

lemma stop_timers:
  "liveIntervals w = (case credentialsSenderInterval w of None \<Rightarrow> [] | Some h \<Rightarrow> [h]) \<Longrightarrow>
   liveIntervals (stopCredentialsSender w) = [] \<and> credentialsSenderInterval (stopCredentialsSender w) = None"
  by (auto simp: stopCredentialsSender_def clearInterval_def split: option.splits)

lemma reachable_timers:
  "reachable w \<Longrightarrow>
   liveIntervals w = (case credentialsSenderInterval w of None \<Rightarrow> [] | Some h \<Rightarrow> [h])"
proof (induction rule: reachable.induct)
  case (initial w)
  then show ?case by simp
next
  case (start w)
  then show ?case using start_timers [of w] by simp
next
  case (stop w)
  then show ?case using stop_timers [of w] by simp
next
  case (other w w')
  then show ?case by simp
qed

text \<open>
  C9: in every reachable state at most one interval timer is live, and it is the one whose
  handle the module variable holds; \<^verbatim>\<open>startCredentialsSender\<close> while a timer is
  running changes nothing; \<^verbatim>\<open>stopCredentialsSender\<close> when none is running changes
  nothing; after \<^verbatim>\<open>stopCredentialsSender\<close> the handle is cleared and no timer is live.
\<close>

theorem C9_at_most_one_timer:
  assumes "reachable w"
  shows "liveIntervals w = (case credentialsSenderInterval w of None \<Rightarrow> [] | Some h \<Rightarrow> [h])
    \<and> length (liveIntervals w) \<le> 1
    \<and> (credentialsSenderInterval w \<noteq> None \<longrightarrow> startCredentialsSender w = w)
    \<and> (credentialsSenderInterval w = None \<longrightarrow> stopCredentialsSender w = w)
    \<and> credentialsSenderInterval (stopCredentialsSender w) = None
    \<and> liveIntervals (stopCredentialsSender w) = []"
proof -
  have inv: "liveIntervals w = (case credentialsSenderInterval w of None \<Rightarrow> [] | Some h \<Rightarrow> [h])"
    using assms by (rule reachable_timers)
  have one: "length (liveIntervals w) \<le> 1"
    using inv by (simp split: option.splits)
  have again: "credentialsSenderInterval w \<noteq> None \<longrightarrow> startCredentialsSender w = w"
    by (simp add: startCredentialsSender_def)
  have idle: "credentialsSenderInterval w = None \<longrightarrow> stopCredentialsSender w = w"
    by (simp add: stopCredentialsSender_def)
  show ?thesis using inv one again idle stop_timers [OF inv] by simp
qed

theorem C9_at_most_one_timer_witness:
  "liveIntervals (startCredentialsSender idp_world) = [0]
   \<and> credentialsSenderInterval (startCredentialsSender idp_world) = Some 0
   \<and> startCredentialsSender (startCredentialsSender idp_world) = startCredentialsSender idp_world
   \<and> liveIntervals (stopCredentialsSender (startCredentialsSender idp_world)) = []"
proof -
  have init: "reachable idp_world"
    by (rule reachable.initial) (simp_all add: idp_world_def add_file_def world_with_def)
  have run: "reachable (startCredentialsSender idp_world)"
    using init by (rule reachable.start)
  have h: "credentialsSenderInterval (startCredentialsSender idp_world) = Some 0"
    by code_simp
  show ?thesis using C9_at_most_one_timer [OF run] h by simp
qed

section \<open>The switch\<close>

text \<open>What \<^verbatim>\<open>switchToEnvironment\<close> does once both copy functions have returned.\<close>

lemma switch_unfold:
  assumes "copyConfigToCursor w d = (w1, Inr configCopied)"
      and "copyIdpUrlToCursor w1 d = (w2, Inr idpUrlCopied)"
      and "w5 = addCursorRulesToWorkspace
                  (if configCopied
                   then fst (replaceTokenTemplateFromSource (w2\<lparr>mcpCurrentEnv := Some d\<rparr>))
                   else w2\<lparr>mcpCurrentEnv := Some d\<rparr>)"
  shows "switchToEnvironment w d =
           (if configCopied \<and> idpUrlCopied
            then (fst (sendCredentials w5),
                  case snd (sendCredentials w5) of
                    Pending \<Rightarrow> Pending
                  | Settled u \<Rightarrow> Settled (Inr configCopied))
            else (w5, Settled (Inr configCopied)))"
  using assms
  by (simp add: switchToEnvironment_def Let_def split: prod.splits promise.splits)

lemma switch_before_send:
  assumes c1: "copyConfigToCursor w d = (w1, Inr configCopied)"
      and c2: "copyIdpUrlToCursor w1 d = (w2, Inr idpUrlCopied)"
      and w5: "w5 = addCursorRulesToWorkspace
                  (if configCopied
                   then fst (replaceTokenTemplateFromSource (w2\<lparr>mcpCurrentEnv := Some d\<rparr>))
                   else w2\<lparr>mcpCurrentEnv := Some d\<rparr>)"
  shows "mcpCurrentEnv w5 = Some d \<and> sendCredentialsCalls w5 = sendCredentialsCalls w"
proof -
  define w3 where "w3 = w2\<lparr>mcpCurrentEnv := Some d\<rparr>"
  define w4 where "w4 = (if configCopied then fst (replaceTokenTemplateFromSource w3) else w3)"
  have n2: "sendCredentialsCalls w2 = sendCredentialsCalls w"
    using copyConfigToCursor_ctl [OF c1] copyIdpUrlToCursor_ctl [OF c2] by (simp add: ctl_def)
  have "ctl w4 = ctl w3"
    using replaceToken_ctl [of w3] by (cases "replaceTokenTemplateFromSource w3") (simp add: w4_def)
  then have n4: "sendCredentialsCalls w4 = sendCredentialsCalls w \<and> mcpCurrentEnv w4 = Some d"
    using n2 by (simp add: ctl_def w3_def)
  have "w5 = addCursorRulesToWorkspace w4" using w5 by (simp add: w4_def w3_def)
  then show ?thesis using addCursorRules_ctl [of w4] n4 by (simp add: ctl_def)
qed

lemma switch_result:
  assumes a: "snd (copyConfigToCursor w d) = Inr configCopied"
      and b: "snd (copyIdpUrlToCursor (fst (copyConfigToCursor w d)) d) = Inr idpUrlCopied"
  shows "snd (switchToEnvironment w d) = Settled (Inr configCopied)
    \<or> snd (switchToEnvironment w d) = Pending \<and> configCopied \<and> idpUrlCopied"
proof -
  obtain w1 where c1: "copyConfigToCursor w d = (w1, Inr configCopied)"
    using a by (cases "copyConfigToCursor w d") simp
  obtain w2 where c2: "copyIdpUrlToCursor w1 d = (w2, Inr idpUrlCopied)"
    using b c1 by (cases "copyIdpUrlToCursor w1 d") simp
  show ?thesis
    by (simp add: switch_unfold [OF c1 c2 refl] split: promise.splits)
qed

lemma switch_calls:
  assumes a: "snd (copyConfigToCursor w d) = Inr configCopied"
      and b: "snd (copyIdpUrlToCursor (fst (copyConfigToCursor w d)) d) = Inr idpUrlCopied"
  shows "sendCredentialsCalls (fst (switchToEnvironment w d)) =
           sendCredentialsCalls w + (if configCopied \<and> idpUrlCopied then 1 else 0)"
proof -
  obtain w1 where c1: "copyConfigToCursor w d = (w1, Inr configCopied)"
    using a by (cases "copyConfigToCursor w d") simp
  obtain w2 where c2: "copyIdpUrlToCursor w1 d = (w2, Inr idpUrlCopied)"
    using b c1 by (cases "copyIdpUrlToCursor w1 d") simp
  define w5 where "w5 = addCursorRulesToWorkspace
      (if configCopied
       then fst (replaceTokenTemplateFromSource (w2\<lparr>mcpCurrentEnv := Some d\<rparr>))
       else w2\<lparr>mcpCurrentEnv := Some d\<rparr>)"
  have n5: "sendCredentialsCalls w5 = sendCredentialsCalls w"
    using switch_before_send [OF c1 c2 w5_def] by simp
  show ?thesis
    using n5 by (simp add: switch_unfold [OF c1 c2 w5_def] sendCredentials_calls)
qed

lemma absent_companion_counts_as_copied:
  assumes "getIdpUrlFilePath w d = (w1, Inr p)" and "\<not> existsSync w1 p"
  shows "copyIdpUrlToCursor w d = (w1, Inr True)"
  using assms by (simp add: copyIdpUrlToCursor_def)

lemma present_companion_is_copied:
  assumes "getIdpUrlFilePath w d = (w1, Inr p)" and "existsSync w1 p"
  shows "snd (copyIdpUrlToCursor w d) = Inr (snd (try_copy w1 p (getCursorIdpUrlPath w1)))"
  using assms by (simp add: copyIdpUrlToCursor_def split: prod.splits)

text \<open>
  Where the companion file is present, the send needs its copy to have gone through:
  the environment \<^verbatim>\<open>A\<close> has a companion endpoint-URL file and the copy of its
  configuration succeeds, but the copy of the companion file raises (its target cannot
  be written); the error is caught, \<^verbatim>\<open>copyIdpUrlToCursor\<close> answers \<^verbatim>\<open>false\<close>, and
  \<^verbatim>\<open>sendCredentials\<close> is not called.
\<close>

lemma no_send_when_companion_copy_fails:
  "snd (getIdpUrlFilePath blocked_copy_world ''A'') = Inr ''/h/.cursor/mcp-selector/envs/a-idp-url.txt''
   \<and> existsSync blocked_copy_world ''/h/.cursor/mcp-selector/envs/a-idp-url.txt''
   \<and> snd (copyConfigToCursor blocked_copy_world ''A'') = Inr True
   \<and> snd (switchToEnvironment blocked_copy_world ''A'') = Settled (Inr True)
   \<and> sendCredentialsCalls blocked_copy_world = 0
   \<and> sendCredentialsCalls (fst (switchToEnvironment blocked_copy_world ''A'')) = 0"
  by code_simp

text \<open>
  In every switch that is not rejected, \<^verbatim>\<open>sendCredentials\<close> is called once if
  \<^verbatim>\<open>copyConfigToCursor\<close> and \<^verbatim>\<open>copyIdpUrlToCursor\<close> both returned \<^verbatim>\<open>true\<close>, and not
  at all otherwise; when the companion file is present, \<^verbatim>\<open>copyIdpUrlToCursor\<close> returns
  \<^verbatim>\<open>true\<close> exactly when the copy went through; and the switch returns the result of
  \<^verbatim>\<open>copyConfigToCursor\<close>, unless the send was triggered and never ends.
\<close>

lemma send_follows_the_two_copy_results:
  assumes a: "snd (copyConfigToCursor w d) = Inr configCopied"
      and b: "snd (copyIdpUrlToCursor (fst (copyConfigToCursor w d)) d) = Inr idpUrlCopied"
  shows "sendCredentialsCalls (fst (switchToEnvironment w d)) =
        sendCredentialsCalls w + (if configCopied \<and> idpUrlCopied then 1 else 0)
    \<and> (\<forall>p. snd (getIdpUrlFilePath (fst (copyConfigToCursor w d)) d) = Inr p
            \<and> existsSync (fst (getIdpUrlFilePath (fst (copyConfigToCursor w d)) d)) p
          \<longrightarrow> idpUrlCopied =
                snd (try_copy (fst (getIdpUrlFilePath (fst (copyConfigToCursor w d)) d)) p
                       (getCursorIdpUrlPath (fst (getIdpUrlFilePath (fst (copyConfigToCursor w d)) d)))))
    \<and> (snd (switchToEnvironment w d) = Settled (Inr configCopied)
        \<or> snd (switchToEnvironment w d) = Pending \<and> configCopied \<and> idpUrlCopied)"
proof -
  define w1 where "w1 = fst (copyConfigToCursor w d)"
  define wq where "wq = fst (getIdpUrlFilePath w1 d)"
  have present: "idpUrlCopied = snd (try_copy wq p (getCursorIdpUrlPath wq))"
    if "snd (getIdpUrlFilePath w1 d) = Inr p" and "existsSync wq p" for p
  proof -
    have "getIdpUrlFilePath w1 d = (wq, Inr p)"
      using that(1) by (simp add: prod_eq_iff wq_def)
    then have "snd (copyIdpUrlToCursor w1 d) = Inr (snd (try_copy wq p (getCursorIdpUrlPath wq)))"
      using that(2) by (rule present_companion_is_copied)
    then show ?thesis using b by (simp add: w1_def)
  qed
  show ?thesis
    using switch_result [OF a b] switch_calls [OF a b] present
    unfolding wq_def w1_def by blast
qed

text \<open>
  With the companion file present and copied the send is triggered; with the
  configuration file missing it is not.
\<close>

lemma send_with_companion_and_without_configuration:
  "sendCredentialsCalls (fst (switchToEnvironment companion_world ''A'')) = 1
   \<and> sendCredentialsCalls (fst (switchToEnvironment (world_with ''A:a'') ''A'')) = 0
   \<and> snd (switchToEnvironment (world_with ''A:a'') ''A'') = Settled (Inr False)"
  by code_simp

text \<open>
  C3 (the code departs from the claim): the claim says that no one-shot send is
  triggered when the companion endpoint-URL file of the environment is absent. The
  environment \<^verbatim>\<open>A\<close> has its configuration file and no companion file:
  \<^verbatim>\<open>copyIdpUrlToCursor\<close> answers \<^verbatim>\<open>true\<close> for the missing file, both copy results are
  \<^verbatim>\<open>true\<close>, and \<^verbatim>\<open>sendCredentials\<close> is called all the same. With a global
  endpoint-URL file left in place by an earlier switch the request is made, to that
  URL. The comment at the call says "If config was copied and IDP URL was also copied
  successfully, send credentials immediately".
\<close>

theorem C3_send_without_companion_file:
  "snd (getIdpUrlFilePath env_a_world ''A'') = Inr ''/h/.cursor/mcp-selector/envs/a-idp-url.txt''
   \<and> \<not> existsSync env_a_world ''/h/.cursor/mcp-selector/envs/a-idp-url.txt''
   \<and> snd (copyConfigToCursor env_a_world ''A'') = Inr True
   \<and> snd (copyIdpUrlToCursor (fst (copyConfigToCursor env_a_world ''A'')) ''A'') = Inr True
   \<and> snd (switchToEnvironment env_a_world ''A'') = Settled (Inr True)
   \<and> sendCredentialsCalls env_a_world = 0
   \<and> sendCredentialsCalls (fst (switchToEnvironment env_a_world ''A'')) = 1
   \<and> \<not> existsSync stale_url_world ''/h/.cursor/mcp-selector/envs/a-idp-url.txt''
   \<and> snd (switchToEnvironment stale_url_world ''A'') = Settled (Inr True)
   \<and> sendCredentialsCalls stale_url_world = 0
   \<and> sendCredentialsCalls (fst (switchToEnvironment stale_url_world ''A'')) = 1
   \<and> posts stale_url_world = []
   \<and> posts (fst (switchToEnvironment stale_url_world ''A'')) = [(''https://idp.example/token'', ''uuid-0'')]"
  by code_simp

text \<open>
  With a global endpoint-URL file whose text is no URL, the switch persists the
  environment, and its promise never settles.
\<close>

lemma switch_can_stay_pending:
  "snd (switchToEnvironment bad_url_world ''A'') = Pending
   \<and> mcpCurrentEnv (fst (switchToEnvironment bad_url_world ''A'')) = Some ''A''
   \<and> posts (fst (switchToEnvironment bad_url_world ''A'')) = []"
  by code_simp

section \<open>Cycling to the next environment\<close>

lemma findIndex_range: "- 1 \<le> findIndex p xs \<and> findIndex p xs < int (length xs)"
  by (induction xs) (auto simp: Let_def)

lemma findIndex_none: "(findIndex p xs = - 1) = (\<forall>x \<in> set xs. \<not> p x)"
proof (induction xs)
  case Nil
  then show ?case by simp
next
  case (Cons x xs)
  have "- 1 \<le> findIndex p xs" using findIndex_range [of p xs] by simp
  then show ?case using Cons by (auto simp: Let_def)
qed

lemma findIndex_found:
  "0 \<le> findIndex p xs \<Longrightarrow> p (xs ! nat (findIndex p xs))"
proof (induction xs)
  case Nil
  then show ?case by simp
next
  case (Cons x xs)
  show ?case
  proof (cases "p x")
    case True
    then show ?thesis by simp
  next
    case False
    have r: "- 1 \<le> findIndex p xs" using findIndex_range [of p xs] by simp
    show ?thesis
    proof (cases "findIndex p xs = - 1")
      case True
      then show ?thesis using Cons.prems False by (simp add: Let_def)
    next
      case neq: False
      then have nn: "0 \<le> findIndex p xs" using r by arith
      have "nat (findIndex p xs + 1) = Suc (nat (findIndex p xs))" using nn by arith
      then show ?thesis using False neq Cons.IH [OF nn] by (simp add: Let_def)
    qed
  qed
qed

lemma update_status_env:
  "updateStatusBarEnvironment w = (w', r) \<Longrightarrow> mcpCurrentEnv w' = mcpCurrentEnv w"
  by (auto simp: updateStatusBarEnvironment_def Let_def
      split: prod.splits sum.splits option.splits
      dest!: stored_or_default_ctl getEnvironmentIcon_ctl getEnvironmentColor_ctl
        getConfigFilePath_ctl)
     (simp_all add: ctl_def)

lemma switch_env_kept:
  assumes s: "switchToEnvironment w d = (w', r)"
  shows "(case r of Settled (Inl e) \<Rightarrow> mcpCurrentEnv w' = mcpCurrentEnv w
          | Settled (Inr ok) \<Rightarrow> mcpCurrentEnv w' = Some d
          | Pending \<Rightarrow> mcpCurrentEnv w' = Some d)"
proof -
  obtain w1 r1 where c1: "copyConfigToCursor w d = (w1, r1)" by (cases "copyConfigToCursor w d")
  obtain w2 r2 where c2: "copyIdpUrlToCursor w1 d = (w2, r2)" by (cases "copyIdpUrlToCursor w1 d")
  have e1: "mcpCurrentEnv w1 = mcpCurrentEnv w"
    using copyConfigToCursor_ctl [OF c1] by (simp add: ctl_def)
  have e2: "mcpCurrentEnv w2 = mcpCurrentEnv w"
    using copyIdpUrlToCursor_ctl [OF c2] e1 by (simp add: ctl_def)
  show ?thesis
  proof (cases r1)
    case (Inl x)
    then show ?thesis using s c1 e1 by (auto simp: switchToEnvironment_def)
  next
    case b1: (Inr configCopied)
    show ?thesis
    proof (cases r2)
      case (Inl x)
      then show ?thesis using s c1 c2 b1 e2 by (auto simp: switchToEnvironment_def)
    next
      case b2: (Inr idpUrlCopied)
      define w5 where "w5 = addCursorRulesToWorkspace
          (if configCopied
           then fst (replaceTokenTemplateFromSource (w2\<lparr>mcpCurrentEnv := Some d\<rparr>))
           else w2\<lparr>mcpCurrentEnv := Some d\<rparr>)"
      have e5: "mcpCurrentEnv w5 = Some d"
        using switch_before_send [OF c1 [unfolded b1] c2 [unfolded b2] w5_def] by simp
      have e6: "mcpCurrentEnv (fst (sendCredentials w5)) = Some d"
        using e5 by (simp add: sendCredentials_env)
      show ?thesis
        using s e5 e6
        by (auto simp: switch_unfold [OF c1 [unfolded b1] c2 [unfolded b2] w5_def]
            split: promise.splits if_splits)
    qed
  qed
qed

lemma switchEnvironment_selects:
  assumes ne: "environments (snd (loadEnvironmentConfiguration w)) \<noteq> []"
  shows "mcpCurrentEnv (switchEnvironment w) =
     Some (displayName (environments (snd (loadEnvironmentConfiguration w)) !
        nat ((findIndex (\<lambda>e. displayName e = snd (stored_or_default (fst (loadEnvironmentConfiguration w))))
                (environments (snd (loadEnvironmentConfiguration w))) + 1)
             mod int (length (environments (snd (loadEnvironmentConfiguration w)))))))"
proof -
  obtain w1 cfg where l: "loadEnvironmentConfiguration w = (w1, cfg)"
    by (cases "loadEnvironmentConfiguration w")
  obtain w2 cur where c: "stored_or_default w1 = (w2, cur)" by (cases "stored_or_default w1")
  define nextEnv where "nextEnv = displayName (environments cfg !
      nat ((findIndex (\<lambda>e. displayName e = cur) (environments cfg) + 1) mod int (length (environments cfg))))"
  define w3 where "w3 = w2\<lparr>mcpCurrentEnv := Some nextEnv\<rparr>"
  obtain w4 r where u: "updateStatusBarEnvironment w3 = (w4, r)"
    by (cases "updateStatusBarEnvironment w3")
  have e4: "mcpCurrentEnv w4 = Some nextEnv"
    using update_status_env [OF u] by (simp add: w3_def)
  obtain w5 r' where s: "switchToEnvironment w4 nextEnv = (w5, r')"
    by (cases "switchToEnvironment w4 nextEnv")
  have e5: "mcpCurrentEnv w5 = Some nextEnv"
    using switch_env_kept [OF s] e4 by (simp split: promise.splits sum.splits)
  have nz: "length (environments cfg) \<noteq> 0" using ne l by simp
  have "mcpCurrentEnv (switchEnvironment w) = Some nextEnv"
    using nz e4 e5
    by (simp add: switchEnvironment_def l c Let_def nextEnv_def [symmetric] w3_def [symmetric] u s
        show_message_def split: sum.splits promise.splits)
  then show ?thesis using l c by (simp add: nextEnv_def)
qed


lemma findIndex_first: "0 \<le> findIndex p xs \<Longrightarrow> j < nat (findIndex p xs) \<Longrightarrow> \<not> p (xs ! j)"
proof (induction xs arbitrary: j)
  case Nil
  then show ?case by simp
next
  case (Cons x xs)
  show ?case
  proof (cases "p x")
    case True
    then show ?thesis using Cons.prems by simp
  next
    case False
    have r: "- 1 \<le> findIndex p xs" using findIndex_range [of p xs] by simp
    show ?thesis
    proof (cases "findIndex p xs = - 1")
      case True
      then show ?thesis using Cons.prems False by (simp add: Let_def)
    next
      case neq: False
      then have nn: "0 \<le> findIndex p xs" using r by arith
      have s: "nat (findIndex p xs + 1) = Suc (nat (findIndex p xs))" using nn by arith
      show ?thesis
      proof (cases j)
        case 0
        then show ?thesis using False by simp
      next
        case (Suc j')
        then have "j' < nat (findIndex p xs)" using Cons.prems False neq s by (simp add: Let_def)
        then show ?thesis using Cons.IH [OF nn] Suc by simp
      qed
    qed
  qed
qed

lemma current_display_name:
  assumes ne: "environments (snd (loadEnvironmentConfiguration w)) \<noteq> []"
  shows "snd (stored_or_default (fst (loadEnvironmentConfiguration w))) =
     (case mcpCurrentEnv w of
        None \<Rightarrow> displayName (environments (snd (loadEnvironmentConfiguration w)) ! 0)
      | Some c \<Rightarrow> if c = [] then displayName (environments (snd (loadEnvironmentConfiguration w)) ! 0)
                  else c)"
proof -
  define w1 where "w1 = fst (loadEnvironmentConfiguration w)"
  define envs where "envs = environments (snd (loadEnvironmentConfiguration w))"
  have l: "loadEnvironmentConfiguration w1 = loadEnvironmentConfiguration w"
    by (simp add: w1_def load_again)
  have "loadEnvironmentConfiguration w = (w1, snd (loadEnvironmentConfiguration w))"
    by (simp add: w1_def)
  then have m: "mcpCurrentEnv w1 = mcpCurrentEnv w"
    using load_ctl by (fastforce simp: ctl_def)
  obtain e es where c: "envs = e # es" using ne by (cases envs) (auto simp: envs_def)
  have "e \<in> set (environments (snd (loadEnvironmentConfiguration w)))"
    using c by (simp add: envs_def)
  then have n: "displayName e \<noteq> []" by (rule loaded_names)
  have d: "snd (getDefaultEnvironment w1) = displayName (envs ! 0)"
    using c n
    by (cases "loadEnvironmentConfiguration w")
       (simp add: getDefaultEnvironment_def l envs_def)
  show ?thesis
    using d m
    by (simp add: stored_or_default_def w1_def [symmetric] envs_def [symmetric] split: option.splits)
qed

text \<open>
  C7: for a non-empty loaded collection, the current display name that
  \<^verbatim>\<open>switchEnvironment\<close> works with is the persisted value of \<^verbatim>\<open>mcpCurrentEnv\<close>, or
  the display name of the first environment when nothing (or the empty text) is
  persisted. \<^verbatim>\<open>switchEnvironment\<close> persists the display name at index
  \<open>(i + 1) mod totalCount\<close>, where \<open>i\<close> is what \<^verbatim>\<open>findIndex\<close> gives for the current
  display name: -1 exactly when no environment has that name, and otherwise the first
  index of the collection at which the name stands. So an unknown current value lands
  on position 0, and the last position wraps to position 0.
\<close>

theorem C7_cycle_next:
  assumes "environments (snd (loadEnvironmentConfiguration w)) \<noteq> []"
  shows
    "(let envs = environments (snd (loadEnvironmentConfiguration w));
          n = int (totalCount (snd (loadEnvironmentConfiguration w)));
          cur = (case mcpCurrentEnv w of
                   None \<Rightarrow> displayName (envs ! 0)
                 | Some c \<Rightarrow> if c = [] then displayName (envs ! 0) else c);
          i = findIndex (\<lambda>e. displayName e = cur) envs
      in snd (stored_or_default (fst (loadEnvironmentConfiguration w))) = cur
         \<and> mcpCurrentEnv (switchEnvironment w) = Some (displayName (envs ! nat ((i + 1) mod n)))
         \<and> (i = - 1) = (cur \<notin> set (map displayName envs))
         \<and> (0 \<le> i \<longrightarrow> i < n \<and> displayName (envs ! nat i) = cur
                        \<and> (\<forall>j < nat i. displayName (envs ! j) \<noteq> cur))
         \<and> (i = - 1 \<longrightarrow> mcpCurrentEnv (switchEnvironment w) = Some (displayName (envs ! 0)))
         \<and> (i = n - 1 \<longrightarrow> mcpCurrentEnv (switchEnvironment w) = Some (displayName (envs ! 0))))"
proof -
  define envs where "envs = environments (snd (loadEnvironmentConfiguration w))"
  define cur where "cur = (case mcpCurrentEnv w of
                   None \<Rightarrow> displayName (envs ! 0)
                 | Some c \<Rightarrow> if c = [] then displayName (envs ! 0) else c)"
  define i where "i = findIndex (\<lambda>e. displayName e = cur) envs"
  define n where "n = int (totalCount (snd (loadEnvironmentConfiguration w)))"
  have n: "n = int (length envs)" by (simp add: n_def envs_def load_totalCount)
  have pos: "0 < n" using assms n envs_def by simp
  have cu: "snd (stored_or_default (fst (loadEnvironmentConfiguration w))) = cur"
    using current_display_name [OF assms] unfolding cur_def envs_def by simp
  have sel: "mcpCurrentEnv (switchEnvironment w) = Some (displayName (envs ! nat ((i + 1) mod n)))"
    using switchEnvironment_selects [OF assms] by (simp add: cu envs_def [symmetric] i_def n)
  have none: "(i = - 1) = (cur \<notin> set (map displayName envs))"
    using findIndex_none [of "\<lambda>e. displayName e = cur" envs] by (auto simp: i_def)
  have found: "0 \<le> i \<longrightarrow> i < n \<and> displayName (envs ! nat i) = cur
                 \<and> (\<forall>j < nat i. displayName (envs ! j) \<noteq> cur)"
    using findIndex_range [of "\<lambda>e. displayName e = cur" envs]
      findIndex_found [of "\<lambda>e. displayName e = cur" envs]
      findIndex_first [of "\<lambda>e. displayName e = cur" envs] by (simp add: i_def n)
  have first: "i = - 1 \<longrightarrow> mcpCurrentEnv (switchEnvironment w) = Some (displayName (envs ! 0))"
    using sel pos by simp
  have wrap: "i = n - 1 \<longrightarrow> mcpCurrentEnv (switchEnvironment w) = Some (displayName (envs ! 0))"
    using sel by simp
  show ?thesis
    unfolding Let_def envs_def [symmetric] cur_def [symmetric] i_def [symmetric] n_def [symmetric]
    using cu sel none found first wrap by blast
qed

theorem C7_cycle_next_witness:
  "mcpCurrentEnv (switchEnvironment at_local) = Some ''Dev''
   \<and> mcpCurrentEnv (switchEnvironment at_prod) = Some ''Local''
   \<and> mcpCurrentEnv (switchEnvironment at_gone) = Some ''Local''
   \<and> mcpCurrentEnv (switchEnvironment three_world) = Some ''Dev''"
proof -
  have ne: "environments (snd (loadEnvironmentConfiguration at_local)) \<noteq> []"
    "environments (snd (loadEnvironmentConfiguration at_prod)) \<noteq> []"
    "environments (snd (loadEnvironmentConfiguration at_gone)) \<noteq> []"
    "environments (snd (loadEnvironmentConfiguration three_world)) \<noteq> []"
    by code_simp+
  let ?next = "\<lambda>w. displayName (environments (snd (loadEnvironmentConfiguration w)) !
      nat ((findIndex (\<lambda>e. displayName e =
                (case mcpCurrentEnv w of
                   None \<Rightarrow> displayName (environments (snd (loadEnvironmentConfiguration w)) ! 0)
                 | Some c \<Rightarrow> if c = [] then displayName (environments (snd (loadEnvironmentConfiguration w)) ! 0)
                             else c))
              (environments (snd (loadEnvironmentConfiguration w))) + 1)
           mod int (totalCount (snd (loadEnvironmentConfiguration w)))))"
  have nxt: "?next at_local = ''Dev''" "?next at_prod = ''Local''" "?next at_gone = ''Local''"
    "?next three_world = ''Dev''"
    by code_simp+
  show ?thesis
    using C7_cycle_next [OF ne(1)] C7_cycle_next [OF ne(2)] C7_cycle_next [OF ne(3)]
      C7_cycle_next [OF ne(4)] nxt
    by (simp add: Let_def)
qed


section \<open>Colour and icon\<close>

lemma find_position_count:
  assumes "find (\<lambda>e. displayName e = d) (environments (snd (loadEnvironmentConfiguration w))) = Some e"
  shows "1 \<le> totalCount (snd (loadEnvironmentConfiguration w))"
proof -
  have "e \<in> set (environments (snd (loadEnvironmentConfiguration w)))"
    using assms by (auto simp: find_Some_iff)
  then have "environments (snd (loadEnvironmentConfiguration w)) \<noteq> []" by auto
  then show ?thesis by (simp add: load_totalCount Suc_le_eq)
qed

lemma color_is_classify:
  assumes "find (\<lambda>e. displayName e = d) (environments (snd (loadEnvironmentConfiguration w))) = Some e"
  shows "snd (getEnvironmentColor w d) =
           tier_color (classify (position e) (totalCount (snd (loadEnvironmentConfiguration w))))"
  using assms
  by (cases "loadEnvironmentConfiguration w") (simp add: getEnvironmentColor_def classify_def)

lemma icon_is_classify:
  assumes "find (\<lambda>e. displayName e = d) (environments (snd (loadEnvironmentConfiguration w))) = Some e"
  shows "snd (getEnvironmentIcon w d) =
           tier_icon (classify (position e) (totalCount (snd (loadEnvironmentConfiguration w))))"
  using assms
  by (cases "loadEnvironmentConfiguration w") (simp add: getEnvironmentIcon_def classify_def)

lemma classify_cases:
  assumes "1 \<le> n"
  shows "(n = 1 \<or> p = 0 \<longrightarrow> classify p n = SAFE)
    \<and> (2 \<le> n \<and> p = n - 1 \<longrightarrow> classify p n = CRITICAL)
    \<and> (n \<noteq> 1 \<and> p \<noteq> 0 \<and> p \<noteq> n - 1 \<longrightarrow> classify p n = CAUTION)
    \<and> (n \<le> 2 \<and> p < n \<longrightarrow> classify p n \<noteq> CAUTION)
    \<and> (3 \<le> n \<and> 0 < p \<and> p < n - 1 \<longrightarrow> classify p n = CAUTION)"
  using assms by (auto simp: classify_def)

text \<open>
  For a display name found in the loaded collection, with \<open>p\<close> the stored position of
  its descriptor and \<open>n\<close> the total count, the colour and the icon are those of the
  tier \<open>classify p n\<close>: SAFE when \<open>n = 1\<close> or \<open>p = 0\<close>, CRITICAL when \<open>n \<ge> 2\<close> and
  \<open>p = n - 1\<close>, CAUTION otherwise. For \<open>n \<le> 2\<close> no position below \<open>n\<close> gives CAUTION,
  and for \<open>n \<ge> 3\<close> every position strictly between 0 and \<open>n - 1\<close> gives CAUTION.
\<close>

lemma color_and_icon_by_tier:
  assumes "find (\<lambda>e. displayName e = d) (environments (snd (loadEnvironmentConfiguration w))) = Some e"
  shows
    "(let p = position e;
          n = totalCount (snd (loadEnvironmentConfiguration w));
          color = snd (getEnvironmentColor w d);
          icon = snd (getEnvironmentIcon w d)
      in color = tier_color (classify p n) \<and> icon = tier_icon (classify p n)
         \<and> (n = 1 \<or> p = 0 \<longrightarrow> color = tier_color SAFE \<and> icon = tier_icon SAFE)
         \<and> (2 \<le> n \<and> p = n - 1 \<longrightarrow> color = tier_color CRITICAL \<and> icon = tier_icon CRITICAL)
         \<and> (n \<noteq> 1 \<and> p \<noteq> 0 \<and> p \<noteq> n - 1 \<longrightarrow> color = tier_color CAUTION \<and> icon = tier_icon CAUTION)
         \<and> (n \<le> 2 \<and> p < n \<longrightarrow> color \<noteq> tier_color CAUTION \<and> icon \<noteq> tier_icon CAUTION)
         \<and> (3 \<le> n \<and> 0 < p \<and> p < n - 1 \<longrightarrow> color = tier_color CAUTION \<and> icon = tier_icon CAUTION))"
proof -
  define p where "p = position e"
  define n where "n = totalCount (snd (loadEnvironmentConfiguration w))"
  have n1: "1 \<le> n" using find_position_count [OF assms] by (simp add: n_def)
  have c: "snd (getEnvironmentColor w d) = tier_color (classify p n)"
    using color_is_classify [OF assms] by (simp add: p_def n_def)
  have i: "snd (getEnvironmentIcon w d) = tier_icon (classify p n)"
    using icon_is_classify [OF assms] by (simp add: p_def n_def)
  have t: "classify p n \<noteq> CAUTION \<Longrightarrow>
            tier_color (classify p n) \<noteq> tier_color CAUTION \<and> tier_icon (classify p n) \<noteq> tier_icon CAUTION"
    by (cases "classify p n") simp_all
  show ?thesis
    using classify_cases [OF n1, of p] c i t
    by (simp add: Let_def p_def [symmetric] n_def [symmetric])
qed

text \<open>The middle one of the three default environments.\<close>

lemma color_and_icon_of_dev:
  "find (\<lambda>e. displayName e = ''Dev'') (environments (snd (loadEnvironmentConfiguration three_world)))
     = Some dev_env
   \<and> totalCount (snd (loadEnvironmentConfiguration three_world)) = 3
   \<and> snd (getEnvironmentColor three_world ''Dev'') = tier_color CAUTION
   \<and> snd (getEnvironmentIcon three_world ''Dev'') = tier_icon CAUTION"
  by code_simp

text \<open>
  C6 (the code departs from the claim): the claim says that in a collection with
  \<open>n \<le> 2\<close> no position gives CAUTION, and that the environment at \<open>n - 1\<close> of two or
  more is CRITICAL. The loaded collection of a properties file with a malformed line
  between \<^verbatim>\<open>Local:a\<close> and \<^verbatim>\<open>Prod:b\<close> has two environments; \<^verbatim>\<open>Prod\<close>, the last of
  them, at index 1, has the stored position 2, which is neither 0 nor \<open>n - 1\<close>, and it
  is shown in the colour and icon of CAUTION.
\<close>

theorem C6_caution_in_a_collection_of_two:
  "map displayName (environments (snd (loadEnvironmentConfiguration gap_world))) = [''Local'', ''Prod'']
   \<and> totalCount (snd (loadEnvironmentConfiguration gap_world)) = 2
   \<and> find (\<lambda>e. displayName e = ''Prod'') (environments (snd (loadEnvironmentConfiguration gap_world)))
       = Some \<lparr>displayName = ''Prod'', configFileName = ''b.json'', position = 2\<rparr>
   \<and> classify 2 2 = CAUTION
   \<and> snd (getEnvironmentColor gap_world ''Prod'') = ''#ff9800''
   \<and> snd (getEnvironmentColor gap_world ''Prod'') = tier_color CAUTION
   \<and> snd (getEnvironmentColor gap_world ''Prod'') \<noteq> tier_color CRITICAL
   \<and> snd (getEnvironmentIcon gap_world ''Prod'') = ''$(beaker)''
   \<and> snd (getEnvironmentIcon gap_world ''Prod'') = tier_icon CAUTION
   \<and> snd (getEnvironmentIcon gap_world ''Prod'') \<noteq> tier_icon CRITICAL"
  by code_simp

section \<open>The path of an environment's file\<close>

lemma with_json_ends: "endsWith (with_json b) ''.json''"
  by (simp add: with_json_def endsWith_def)

lemma parse_line_ends:
  "parse_line k l = Some e \<Longrightarrow> endsWith (configFileName e) ''.json''"
  using with_json_ends
  by (auto simp: parse_line_def Let_def split: option.splits prod.splits if_splits)

lemma parse_lines_ends:
  "e \<in> set (parse_lines k ls) \<Longrightarrow> endsWith (configFileName e) ''.json''"
proof (induction ls arbitrary: k)
  case Nil
  then show ?case by simp
next
  case (Cons l ls)
  then show ?case
    by (cases "parse_line k l") (auto dest: parse_line_ends)
qed

lemma loaded_ends:
  "e \<in> set (environments (snd (loadEnvironmentConfiguration w))) \<Longrightarrow>
   endsWith (configFileName e) ''.json''"
  using load_is_parse [of w] parse_lines_ends
  by (auto simp: parseEnvironmentProps_def Let_def)

lemma occurrences_suffix: "1 \<le> occurrences (x @ p) p"
proof (induction x)
  case Nil
  then show ?case by (cases p) simp_all
next
  case (Cons c x)
  then show ?case by simp
qed

lemma replace_first_only_suffix:
  "p \<noteq> [] \<Longrightarrow> occurrences (b @ p) p = 1 \<Longrightarrow> replace_first (b @ p) p [] = b"
proof (induction b)
  case Nil
  then show ?case by (cases p) simp_all
next
  case (Cons c b)
  have suf: "1 \<le> occurrences (b @ p) p" by (rule occurrences_suffix)
  show ?case
  proof (cases "take (length p) (c # b @ p) = p")
    case True
    then have "occurrences ((c # b) @ p) p = 1 + occurrences (b @ p) p" by simp
    then show ?thesis using Cons.prems(2) suf by arith
  next
    case False
    then have "occurrences (b @ p) p = 1" using Cons.prems(2) by simp
    then have "replace_first (b @ p) p [] = b" using Cons.IH Cons.prems(1) by simp
    then show ?thesis using False by simp
  qed
qed

lemma base_then_json:
  assumes e: "endsWith s ''.json''" and o: "occurrences s ''.json'' = 1"
  shows "replace_first s ''.json'' [] @ ''.json'' = s"
proof -
  define b where "b = take (length s - 5) s"
  have "drop (length s - 5) s = ''.json''"
    using e by (simp add: endsWith_def eval_nat_numeral)
  then have s: "s = b @ ''.json''"
    using append_take_drop_id [of "length s - 5" s] by (simp add: b_def)
  have "replace_first (b @ ''.json'') ''.json'' [] = b"
    using o s by (intro replace_first_only_suffix) simp_all
  then show ?thesis using s by simp
qed

text \<open>
  The file name \<^verbatim>\<open>.json\<close> holds \<^verbatim>\<open>.json\<close> exactly once, yet its base is the empty
  string, which \<^verbatim>\<open>getConfigFilePath\<close> takes for an unknown environment: it raises.
\<close>

lemma path_of_suffix_only_name_raises:
  "environments (snd (loadEnvironmentConfiguration only_suffix_world)) =
     [\<lparr>displayName = ''A'', configFileName = ''.json'', position = 0\<rparr>]
   \<and> occurrences ''.json'' ''.json'' = 1
   \<and> snd (getConfigFilePath only_suffix_world ''A'') = Inl (Error ''Unknown environment: A'')"
  by code_simp

text \<open>
  C10, as stated, fails: with two environments of the same display name, the second one's
  file name holds \<^verbatim>\<open>.json\<close> exactly once, and the path of its display name is the file
  of the first.
\<close>

theorem C10_path_of_another_environment_counterexample:
  "environments (snd (loadEnvironmentConfiguration twice_a_world)) =
     [\<lparr>displayName = ''A'', configFileName = ''x.json'', position = 0\<rparr>,
      \<lparr>displayName = ''A'', configFileName = ''y.json'', position = 1\<rparr>]
   \<and> occurrences ''y.json'' ''.json'' = 1
   \<and> snd (getConfigFilePath twice_a_world ''A'') = Inr ''/h/.cursor/mcp-selector/envs/x.json''
   \<and> path_join (envs_dir twice_a_world) ''y.json'' = ''/h/.cursor/mcp-selector/envs/y.json''"
  by code_simp

text \<open>
  C10, amended: when the first environment of the loaded collection with display name
  \<open>d\<close> has a file name that holds \<^verbatim>\<open>.json\<close> exactly once and is more than
  \<^verbatim>\<open>.json\<close> alone, \<^verbatim>\<open>getConfigFilePath\<close> of \<open>d\<close> is the environments directory
  joined with exactly that file name.
\<close>

theorem C10_config_path_round_trip:
  assumes f: "find (\<lambda>e. displayName e = d) (environments (snd (loadEnvironmentConfiguration w))) = Some e"
      and o: "occurrences (configFileName e) ''.json'' = 1"
      and n: "configFileName e \<noteq> ''.json''"
  shows "snd (getConfigFilePath w d) = Inr (path_join (envs_dir w) (configFileName e))"
proof -
  have "e \<in> set (environments (snd (loadEnvironmentConfiguration w)))"
    using f by (auto simp: find_Some_iff)
  then have ends: "endsWith (configFileName e) ''.json''" by (rule loaded_ends)
  define b where "b = replace_first (configFileName e) ''.json'' []"
  have whole: "b @ ''.json'' = configFileName e"
    using base_then_json [OF ends o] by (simp add: b_def)
  have nonempty: "b \<noteq> []" using whole n by auto
  show ?thesis
    using f nonempty whole
    by (cases "loadEnvironmentConfiguration w")
       (simp add: getConfigFilePath_def getConfigFileBase_def b_def)
qed

theorem C10_config_path_round_trip_witness:
  "snd (getConfigFilePath three_world ''Dev'') = Inr ''/h/.cursor/mcp-selector/envs/mcp-dev.json''"
proof -
  have f: "find (\<lambda>e. displayName e = ''Dev'') (environments (snd (loadEnvironmentConfiguration three_world)))
             = Some dev_env"
    by code_simp
  have o: "occurrences (configFileName dev_env) ''.json'' = 1" by code_simp
  have n: "configFileName dev_env \<noteq> ''.json''" by (simp add: dev_env_def)
  have p: "path_join (envs_dir three_world) (configFileName dev_env) =
             ''/h/.cursor/mcp-selector/envs/mcp-dev.json''"
    by code_simp
  show ?thesis using C10_config_path_round_trip [OF f o n] p by simp
qed

section \<open>The validators\<close>























section \<open>The switch to an environment whose file is missing\<close>

lemma base_again:
  "getConfigFileBase (fst (getConfigFileBase w d)) d = getConfigFileBase w d"
proof -
  have "fst (getConfigFileBase w d) = fst (loadEnvironmentConfiguration w)"
    by (cases "loadEnvironmentConfiguration w") (simp add: getConfigFileBase_def split: option.splits)
  then show ?thesis
    using load_again [of w] by (simp add: getConfigFileBase_def)
qed

text \<open>
  Where the path of the environment's file resolves and no file is there, the switch
  records the new display name and answers \<^verbatim>\<open>false\<close>.
\<close>

lemma missing_file_switch:
  assumes p: "snd (getConfigFilePath w d) = Inr p"
      and m: "\<not> existsSync (fst (getConfigFilePath w d)) p"
  shows "snd (switchToEnvironment w d) = Settled (Inr False)
    \<and> mcpCurrentEnv (fst (switchToEnvironment w d)) = Some d"
proof -
  define w1 where "w1 = fst (getConfigFilePath w d)"
  have gp: "getConfigFilePath w d = (w1, Inr p)" using p by (simp add: w1_def prod_eq_iff)
  obtain wb fb where b: "getConfigFileBase w d = (wb, fb)" by (cases "getConfigFileBase w d")
  have wb: "wb = w1" using gp b by (auto simp: getConfigFilePath_def split: option.splits if_splits)
  obtain f where f: "fb = Some f" "f \<noteq> []"
    using gp b by (auto simp: getConfigFilePath_def split: option.splits if_splits)
  have m': "\<not> existsSync w1 p" using m by (simp add: w1_def)
  have c1: "copyConfigToCursor w d = (w1, Inr False)"
    using m' by (simp add: copyConfigToCursor_def gp)
  have "getConfigFileBase w1 d = (w1, Some f)"
    using base_again [of w d] b wb f by simp
  then have "\<exists>q. getIdpUrlFilePath w1 d = (w1, Inr q)"
    using f by (simp add: getIdpUrlFilePath_def)
  then obtain q where q: "getIdpUrlFilePath w1 d = (w1, Inr q)" by blast
  have "\<exists>w2 b2. copyIdpUrlToCursor w1 d = (w2, Inr b2)"
    using q by (cases "try_copy w1 q (getCursorIdpUrlPath w1)") (auto simp: copyIdpUrlToCursor_def)
  then obtain w2 b2 where c2: "copyIdpUrlToCursor w1 d = (w2, Inr b2)" by blast
  have a: "snd (copyConfigToCursor w d) = Inr False" using c1 by simp
  have b': "snd (copyIdpUrlToCursor (fst (copyConfigToCursor w d)) d) = Inr b2" using c1 c2 by simp
  have r: "snd (switchToEnvironment w d) = Settled (Inr False)"
    using switch_result [OF a b'] by simp
  then have "switchToEnvironment w d = (fst (switchToEnvironment w d), Settled (Inr False))"
    by (simp add: prod_eq_iff)
  then have "mcpCurrentEnv (fst (switchToEnvironment w d)) = Some d"
    using switch_env_kept by fastforce
  then show ?thesis using r by simp
qed

text \<open>
  C4 (the code departs from the claim): the claim says that for every display name of the
  loaded collection whose file does not exist, \<^verbatim>\<open>switchToEnvironment\<close> persists the
  name and returns \<^verbatim>\<open>false\<close>. For the environment \<^verbatim>\<open>A\<close> of the line
  \<^verbatim>\<open>A:.json\<close> the base name is the empty string, \<^verbatim>\<open>getConfigFilePath\<close> takes it for
  an unknown environment and raises: the switch is rejected and persists nothing.
\<close>

theorem C4_known_environment_is_rejected:
  "environments (snd (loadEnvironmentConfiguration only_suffix_world)) =
     [\<lparr>displayName = ''A'', configFileName = ''.json'', position = 0\<rparr>]
   \<and> \<not> existsSync only_suffix_world (path_join (envs_dir only_suffix_world) ''.json'')
   \<and> snd (switchToEnvironment only_suffix_world ''A'') = Settled (Inl (Error ''Unknown environment: A''))
   \<and> mcpCurrentEnv only_suffix_world = None
   \<and> mcpCurrentEnv (fst (switchToEnvironment only_suffix_world ''A'')) = None"
  by code_simp

section \<open>The round trip through the canonical text\<close>

text \<open>
  Parsing the canonical re-serialization of a parsed collection gives the same display
  names and file names in the same order, with the positions \<open>0, 1, \<dots>\<close>: the result is
  the first collection exactly when that one's positions were \<open>0, 1, \<dots>\<close> already.
\<close>

lemma last_dropWhile: "dropWhile P xs \<noteq> [] \<Longrightarrow> last (dropWhile P xs) = last xs"
  by (induction xs) (auto split: if_splits)

lemma trimmed_trim: "trimmed (trim s)"
proof -
  define a where "a = dropWhile is_ws s"
  define b where "b = dropWhile is_ws (rev a)"
  have t: "trim s = rev b" by (simp add: trim_def a_def b_def)
  show ?thesis
  proof (cases "b = []")
    case True
    then show ?thesis by (simp add: t trimmed_def)
  next
    case False
    then have ra: "rev a \<noteq> []" by (auto simp: b_def)
    then have an: "dropWhile is_ws s \<noteq> []" by (simp add: a_def)
    have "last b = last (rev a)" using False unfolding b_def by (rule last_dropWhile)
    then have "last b = hd a" using ra by (simp add: last_rev)
    then have h: "\<not> is_ws (hd (rev b))"
      using False hd_dropWhile [OF an] by (simp add: hd_rev a_def)
    have "\<not> is_ws (hd b)" using False hd_dropWhile [of is_ws "rev a"] by (simp add: b_def)
    then have l: "\<not> is_ws (last (rev b))" using False by (simp add: last_rev)
    show ?thesis using h l by (simp add: t trimmed_def)
  qed
qed

lemma trim_id: "trimmed s \<Longrightarrow> trim s = s"
proof (cases s)
  case Nil
  then show ?thesis by (simp add: trim_def)
next
  case (Cons x xs)
  assume "trimmed s"
  then have h: "\<not> is_ws (hd s)" and l: "\<not> is_ws (last s)" using Cons by (simp_all add: trimmed_def)
  have a: "dropWhile is_ws s = s" using h Cons by simp
  define r where "r = rev s"
  have "r \<noteq> []" using Cons by (simp add: r_def)
  then obtain y ys where r: "r = y # ys" by (cases r) auto
  have "hd r = last s" using Cons by (simp add: r_def hd_rev)
  then have "\<not> is_ws y" using l r by simp
  then have "dropWhile is_ws r = r" using r by simp
  then show ?thesis by (simp add: trim_def a r_def)
qed

lemma set_trim: "set (trim s) \<subseteq> set s"
proof -
  have "set (trim s) \<subseteq> set (rev (dropWhile is_ws s))"
    unfolding trim_def using set_dropWhileD [of _ is_ws "rev (dropWhile is_ws s)"] by auto
  also have "\<dots> \<subseteq> set s" using set_dropWhileD [of _ is_ws s] by auto
  finally show ?thesis .
qed

lemma hd_trim: "\<not> is_ws (hd s) \<Longrightarrow> trim s \<noteq> [] \<Longrightarrow> hd (trim s) = hd s"
proof -
  assume h: "\<not> is_ws (hd s)" and n: "trim s \<noteq> []"
  have sn: "s \<noteq> []" using n by (auto simp: trim_def)
  then have a: "dropWhile is_ws s = s" using h by (cases s) auto
  define b where "b = dropWhile is_ws (rev s)"
  have t: "trim s = rev b" by (simp add: trim_def a b_def)
  have bn: "b \<noteq> []" using n t by simp
  have "last b = last (rev s)" using bn unfolding b_def by (rule last_dropWhile)
  then show ?thesis using bn sn by (simp add: t hd_rev last_rev)
qed

lemma split_nl_nonempty: "split_nl s \<noteq> []"
  by (induction s) (auto split: list.splits)

lemma split_nl_one: "CHR 0x0A \<notin> set l \<Longrightarrow> split_nl l = [l]"
  by (induction l) auto

lemma split_nl_cut: "CHR 0x0A \<notin> set l \<Longrightarrow> split_nl (l @ CHR 0x0A # rest) = l # split_nl rest"
  by (induction l) auto

lemma split_nl_lines: "l \<in> set (split_nl s) \<Longrightarrow> CHR 0x0A \<notin> set l"
proof (induction s arbitrary: l)
  case Nil
  then show ?case by simp
next
  case (Cons c s)
  show ?case
  proof (cases "c = CHR 0x0A")
    case True
    then show ?thesis using Cons by auto
  next
    case False
    obtain x xs where sp: "split_nl s = x # xs"
      using split_nl_nonempty [of s] by (cases "split_nl s") auto
    then have "l = c # x \<or> l \<in> set xs" using Cons.prems False by simp
    then show ?thesis using Cons.IH [of x] Cons.IH [of l] sp False by auto
  qed
qed

lemma candidate_line:
  assumes "l \<in> set (candidate_lines t)"
  shows "l \<noteq> [] \<and> trimmed l \<and> hd l \<noteq> CHR ''#'' \<and> CHR 0x0A \<notin> set l"
proof -
  obtain r where r: "r \<in> set (split_nl t)" and l: "l = trim r"
    and ne: "l \<noteq> []" and nc: "\<not> startsWith l ''#''"
    using assms by (auto simp: candidate_lines_def)
  have "CHR 0x0A \<notin> set r" using r by (rule split_nl_lines)
  then have nl: "CHR 0x0A \<notin> set l" using set_trim [of r] l by auto
  have "hd l \<noteq> CHR ''#''" using ne nc by (cases l) (auto simp: startsWith_def)
  then show ?thesis using ne nl trimmed_trim [of r] l by simp
qed


lemma take_to_colon:
  "indexOf l CHR '':'' = Some ci \<Longrightarrow>
   take ci l = takeWhile (\<lambda>x. x \<noteq> CHR '':'') l \<and> set (drop (ci + 1) l) \<subseteq> set l"
  using takeWhile_eq_take [of "\<lambda>x. x \<noteq> CHR '':''" l] set_drop_subset [of "ci + 1" l]
  by (auto simp: indexOf_def split: if_splits)

lemma with_json_trimmed:
  assumes "trimmed b" and "b \<noteq> []"
  shows "trimmed (with_json b)"
proof (cases "endsWith b ''.json''")
  case True
  then show ?thesis using assms by (simp add: with_json_def)
next
  case False
  have "\<not> is_ws (hd b)" using assms by (simp add: trimmed_def)
  then show ?thesis using False assms(2) by (simp add: with_json_def trimmed_def is_ws_def)
qed

lemma parse_line_well_formed:
  assumes l: "l \<noteq> [] \<and> trimmed l \<and> hd l \<noteq> CHR ''#'' \<and> CHR 0x0A \<notin> set l"
      and p: "parse_line k l = Some e"
  shows "well_formed e"
proof -
  obtain ci where ci: "indexOf l CHR '':'' = Some ci"
    using p by (auto simp: parse_line_def line_halves_def split: option.splits)
  define tw where "tw = takeWhile (\<lambda>x. x \<noteq> CHR '':'') l"
  define dn where "dn = trim tw"
  define b where "b = trim (drop (ci + 1) l)"
  have tk: "take ci l = tw" and dr: "set (drop (ci + 1) l) \<subseteq> set l"
    using take_to_colon [OF ci] by (simp_all add: tw_def)
  have h: "line_halves l = Some (dn, b)"
    by (simp add: line_halves_def ci tk dn_def b_def)
  have e: "e = \<lparr>displayName = dn, configFileName = with_json b, position = k\<rparr>"
    and dne: "dn \<noteq> []" and bne: "b \<noteq> []"
    using p h by (auto simp: parse_line_def Let_def split: if_splits)
  have sub: "set tw \<subseteq> set l" using set_takeWhileD [of _ "\<lambda>x. x \<noteq> CHR '':''" l] by (auto simp: tw_def)
  have nocolon: "CHR '':'' \<notin> set dn"
    using set_trim [of tw] set_takeWhileD [of "CHR '':''" "\<lambda>x. x \<noteq> CHR '':''" l]
    by (auto simp: dn_def tw_def)
  have nonl: "CHR 0x0A \<notin> set dn" using set_trim [of tw] sub l by (auto simp: dn_def)
  have twne: "tw \<noteq> []" using dne by (auto simp: dn_def trim_def)
  have hdtw: "hd tw = hd l" using twne by (cases l) (auto simp: tw_def split: if_splits)
  have "\<not> is_ws (hd l)" using l by (auto simp: trimmed_def)
  then have "hd dn = hd l" using hd_trim [of tw] dne hdtw by (simp add: dn_def)
  then have nohash: "hd dn \<noteq> CHR ''#''" using l by simp
  have bnl: "CHR 0x0A \<notin> set b" using set_trim [of "drop (ci + 1) l"] dr l by (auto simp: b_def)
  have "set (with_json b) \<subseteq> set b \<union> set ''.json''" by (auto simp: with_json_def)
  then have cnl: "CHR 0x0A \<notin> set (with_json b)" using bnl by auto
  have ct: "trimmed (with_json b)"
    using bne trimmed_trim [of "drop (ci + 1) l"] by (intro with_json_trimmed) (simp_all add: b_def)
  show ?thesis
    using dne trimmed_trim [of tw] nocolon nonl nohash ct cnl with_json_ends [of b]
    by (simp add: well_formed_def e dn_def)
qed

lemma parse_lines_well_formed:
  "\<forall>l \<in> set ls. l \<noteq> [] \<and> trimmed l \<and> hd l \<noteq> CHR ''#'' \<and> CHR 0x0A \<notin> set l \<Longrightarrow>
   e \<in> set (parse_lines k ls) \<Longrightarrow> well_formed e"
proof (induction ls arbitrary: k)
  case Nil
  then show ?case by simp
next
  case (Cons l ls)
  then show ?case
    by (cases "parse_line k l") (auto dest: parse_line_well_formed [rotated])
qed

lemma parsed_well_formed:
  "e \<in> set (environments (parseEnvironmentProps t)) \<Longrightarrow> well_formed e"
  using parse_lines_well_formed [of "candidate_lines t" e 0] candidate_line [of _ t]
  by (auto simp: parseEnvironmentProps_def Let_def)


lemma line_of_parses:
  assumes "well_formed e"
  shows "parse_line k (line_of e) = Some (e\<lparr>position := k\<rparr>)
    \<and> line_of e \<noteq> [] \<and> trim (line_of e) = line_of e \<and> \<not> startsWith (line_of e) ''#''
    \<and> CHR 0x0A \<notin> set (line_of e)"
proof -
  define dn where "dn = displayName e"
  define cfn where "cfn = configFileName e"
  have w: "dn \<noteq> []" "trimmed dn" "CHR '':'' \<notin> set dn" "CHR 0x0A \<notin> set dn" "hd dn \<noteq> CHR ''#''"
    "trimmed cfn" "CHR 0x0A \<notin> set cfn" "endsWith cfn ''.json''"
    using assms by (simp_all add: well_formed_def dn_def cfn_def)
  have cne: "cfn \<noteq> []" using w(8) by (auto simp: endsWith_def)
  have lo: "line_of e = dn @ CHR '':'' # cfn" by (simp add: line_of_def dn_def cfn_def)
  have "\<And>x. x \<in> set dn \<Longrightarrow> x \<noteq> CHR '':''" using w(3) by auto
  then have tw: "takeWhile (\<lambda>x. x \<noteq> CHR '':'') (dn @ CHR '':'' # cfn) = dn"
    by (simp add: takeWhile_append2)
  have io: "indexOf (line_of e) CHR '':'' = Some (length dn)"
    by (simp add: indexOf_def lo tw)
  have halves: "line_halves (line_of e) = Some (dn, cfn)"
    using w(2,6) by (simp add: line_halves_def io) (simp add: lo trim_id)
  have wj: "with_json cfn = cfn" using w(8) by (simp add: with_json_def)
  have "\<lparr>displayName = dn, configFileName = cfn, position = k\<rparr> = e\<lparr>position := k\<rparr>"
    by (simp add: dn_def cfn_def)
  then have parse: "parse_line k (line_of e) = Some (e\<lparr>position := k\<rparr>)"
    using w(1) cne by (simp add: parse_line_def halves wj)
  have hd_l: "hd (line_of e) = hd dn" using w(1) by (simp add: lo)
  have last_l: "last (line_of e) = last cfn" using cne by (simp add: lo)
  have "\<not> is_ws (hd dn)" "\<not> is_ws (last cfn)" using w(1,2,6) cne by (auto simp: trimmed_def)
  then have "trimmed (line_of e)" by (simp add: trimmed_def hd_l last_l)
  then have tr: "trim (line_of e) = line_of e" by (rule trim_id)
  have nh: "\<not> startsWith (line_of e) ''#''"
    using w(1,5) by (cases dn) (auto simp: startsWith_def lo)
  show ?thesis using parse tr nh w(4,7) by (simp add: lo)
qed

lemma split_serialized:
  "\<forall>e \<in> set es. well_formed e \<Longrightarrow> es \<noteq> [] \<Longrightarrow>
   split_nl (serialize_envs es) = map line_of es"
proof (induction es rule: serialize_envs.induct)
  case 1
  then show ?case by simp
next
  case (2 e)
  then have "CHR 0x0A \<notin> set (line_of e)" using line_of_parses [of e 0] by simp
  then show ?case using split_nl_one [of "line_of e"] by (simp add: line_of_def)
next
  case (3 e e' es)
  have nl: "CHR 0x0A \<notin> set (line_of e)" using 3(2) line_of_parses [of e 0] by simp
  have "split_nl (serialize_envs (e' # es)) = map line_of (e' # es)" using 3 by simp
  then have "split_nl (line_of e @ CHR 0x0A # serialize_envs (e' # es)) = line_of e # map line_of (e' # es)"
    using split_nl_cut [OF nl] by simp
  then show ?case by (simp add: line_of_def)
qed

lemma candidates_of_serialized:
  assumes "\<forall>e \<in> set es. well_formed e"
  shows "candidate_lines (serialize_envs es) = map line_of es"
proof (cases "es = []")
  case True
  then show ?thesis by (simp add: candidate_lines_def trim_def)
next
  case False
  have keep: "\<forall>e \<in> set es. trim (line_of e) = line_of e \<and> line_of e \<noteq> []
      \<and> \<not> startsWith (line_of e) ''#''"
    using assms line_of_parses by blast
  have mt: "map trim (map line_of es) = map line_of es"
    using keep by (induction es) simp_all
  have flt: "filter (\<lambda>l. l \<noteq> [] \<and> \<not> startsWith l ''#'') (map line_of es) = map line_of es"
    using keep by (induction es) simp_all
  have "candidate_lines (serialize_envs es) =
      filter (\<lambda>l. l \<noteq> [] \<and> \<not> startsWith l ''#'') (map trim (split_nl (serialize_envs es)))"
    by (simp add: candidate_lines_def)
  also have "\<dots> = filter (\<lambda>l. l \<noteq> [] \<and> \<not> startsWith l ''#'') (map trim (map line_of es))"
    by (simp only: split_serialized [OF assms False])
  also have "\<dots> = filter (\<lambda>l. l \<noteq> [] \<and> \<not> startsWith l ''#'') (map line_of es)"
    by (simp only: mt)
  also have "\<dots> = map line_of es" by (rule flt)
  finally show ?thesis .
qed

lemma parse_serialized_lines:
  "\<forall>e \<in> set es. well_formed e \<Longrightarrow> parse_lines k (map line_of es) = renumber k es"
proof (induction es arbitrary: k)
  case Nil
  then show ?case by simp
next
  case (Cons e es)
  then show ?case using line_of_parses [of e k] by simp
qed

lemma reparse_renumbers:
  "environments (parseEnvironmentProps (serialize (parseEnvironmentProps t))) =
     renumber 0 (environments (parseEnvironmentProps t))"
proof -
  define es where "es = environments (parseEnvironmentProps t)"
  have wf: "\<forall>e \<in> set es. well_formed e" using parsed_well_formed by (simp add: es_def)
  have "environments (parseEnvironmentProps (serialize_envs es)) = renumber 0 es"
    using candidates_of_serialized [OF wf] parse_serialized_lines [OF wf]
    by (simp add: parseEnvironmentProps_def Let_def)
  then show ?thesis by (simp add: serialize_def es_def)
qed

lemma renumber_fields:
  "map displayName (renumber k es) = map displayName es
   \<and> map configFileName (renumber k es) = map configFileName es
   \<and> map position (renumber k es) = [k ..< k + length es]"
  by (induction es arbitrary: k) (simp_all add: upt_rec)

lemma renumber_same: "(renumber k es = es) = (map position es = [k ..< k + length es])"
proof (induction es arbitrary: k)
  case Nil
  then show ?case by simp
next
  case (Cons e es)
  have "(e\<lparr>position := k\<rparr> = e) = (position e = k)"
    by (cases e) auto
  then show ?case using Cons [of "k + 1"] by (auto simp: upt_rec)
qed

lemma reparse_same_iff:
  "(parseEnvironmentProps (serialize (parseEnvironmentProps t)) = parseEnvironmentProps t)
   = (map position (environments (parseEnvironmentProps t)) =
        [0 ..< totalCount (parseEnvironmentProps t)])"
proof -
  have tc: "totalCount (parseEnvironmentProps s) = length (environments (parseEnvironmentProps s))" for s
    by (simp add: parseEnvironmentProps_def Let_def)
  have len: "length (renumber k es) = length es" for k es
    by (induction es arbitrary: k) simp_all
  have "(parseEnvironmentProps (serialize (parseEnvironmentProps t)) = parseEnvironmentProps t)
      = (environments (parseEnvironmentProps (serialize (parseEnvironmentProps t)))
          = environments (parseEnvironmentProps t))"
    using tc [of t] tc [of "serialize (parseEnvironmentProps t)"]
    by (auto simp: EnvironmentCollection.equality)
  then show ?thesis
    using renumber_same [of 0 "environments (parseEnvironmentProps t)"]
    by (simp add: reparse_renumbers tc)
qed

end
